theory Spec2Isabelle
  imports Complex_Main "HOL-Library.AList" "HOL-Library.Sublist"
begin

section \<open>The DingTalk channel (nanobot/channels/dingtalk.py)\<close>

text \<open>
  A shallow embedding of \<^verbatim>\<open>DingTalkChannel\<close>. The channel object, the card objects it
  refers to and the outside world (clock, uuid source, remote endpoints) are one record that
  is passed through every method. Every \<^verbatim>\<open>await\<close> runs to completion before the next
  statement: the embedding is the sequential behaviour of one coroutine.
\<close>

subsection \<open>Data\<close>

text \<open>Values found in \<^verbatim>\<open>msg.metadata\<close> (a \<^verbatim>\<open>dict[str, Any]\<close>), with Python's truth value
  and the text an f-string gives them.\<close>

datatype pyval = PyNone | PyBool bool | PyStr string

fun truthy :: "pyval option \<Rightarrow> bool" where
  "truthy None = False"
| "truthy (Some PyNone) = False"
| "truthy (Some (PyBool b)) = b"
| "truthy (Some (PyStr x)) = (x \<noteq> [])"

fun py_str :: "pyval \<Rightarrow> string" where
  "py_str PyNone = ''None''"
| "py_str (PyBool b) = (if b then ''True'' else ''False'')"
| "py_str (PyStr x) = x"

text \<open>\<^verbatim>\<open>d.get(k, default)\<close> on a dict kept as an association list.\<close>

definition get_default :: "(string \<times> pyval) list \<Rightarrow> string \<Rightarrow> pyval \<Rightarrow> pyval" where
  "get_default d k dflt = (case map_of d k of None \<Rightarrow> dflt | Some v \<Rightarrow> v)"

record outbound_message =
  chat_id :: string
  content :: string
  metadata :: "(string \<times> pyval) list"

text \<open>\<^verbatim>\<open>_ActiveCard\<close>. Time stamps are the floats of \<^verbatim>\<open>time.time()\<close>, taken as reals.\<close>

record active_card =
  card_instance_id :: string
  accumulated_content :: string
  inputing_started :: bool
  created_at :: real

definition CARD_TTL_SECONDS :: real where
  "CARD_TTL_SECONDS = 600"

text \<open>The deliver model of a create request: group chats carry the robot code, private
  chats the space type.\<close>

datatype deliver_model = ImGroupOpenDeliverModel string | ImRobotOpenDeliverModel string

text \<open>
  What the channel does to the outside, in order. The first five are HTTP requests, with
  the fields of their bodies that vary (the access token is the request header):
  \<^item> \<open>TokenRequest appKey appSecret\<close>: POST /v1.0/oauth2/accessToken
  \<^item> \<open>CreateAndDeliver token outTrackId openSpaceId deliverModel\<close>: POST /v1.0/card/instances/createAndDeliver
  \<^item> \<open>PutCardData token outTrackId flowStatus msgContent\<close>: PUT /v1.0/card/instances
  \<^item> \<open>CardStreaming token outTrackId guid content isFinalize\<close>: PUT /v1.0/card/streaming
  \<^item> \<open>BatchSend token robotCode userId text\<close>: POST /v1.0/robot/oToMessages/batchSend
  \<^item> \<open>HandleMessage sender_id chat_id content metadata\<close>: the call of \<^verbatim>\<open>BaseChannel._handle_message\<close>
  \<^item> \<open>HttpClose\<close>: \<^verbatim>\<open>self._http.aclose()\<close>
  \<^item> \<open>TaskCancel t\<close>: \<^verbatim>\<open>task.cancel()\<close>
\<close>

datatype event =
    TokenRequest string string
  | CreateAndDeliver string string string deliver_model
  | PutCardData string string string string
  | CardStreaming string string string string bool
  | BatchSend string string string string
  | HandleMessage string string string "(string \<times> pyval) list"
  | HttpClose
  | TaskCancel nat

text \<open>The outcome of an HTTP request whose response is only looked at for its status code:
  the call raises, or a response with a status code comes back.\<close>

datatype http_outcome = Raised | Status nat

text \<open>
  The outcome of the token exchange. \<open>TokenRaised\<close>: \<^verbatim>\<open>post\<close>, \<^verbatim>\<open>raise_for_status\<close>,
  \<^verbatim>\<open>resp.json()\<close> or \<^verbatim>\<open>res_data.get\<close> raises, which is before anything is stored.
  \<open>TokenJson tok ttl\<close>: the decoded body, with \<open>tok\<close> the value of \<^verbatim>\<open>accessToken\<close> (\<open>None\<close> when
  absent) and \<open>ttl\<close> the value of \<^verbatim>\<open>expireIn\<close>: absent, a value \<^verbatim>\<open>int()\<close> converts (to
  the integer given), or a value on which \<^verbatim>\<open>int()\<close> raises (\<^verbatim>\<open>null\<close>, a string that is no
  number).
\<close>

datatype expire_in = ExpireAbsent | ExpireInt int | ExpireBad

datatype token_outcome = TokenRaised | TokenJson "string option" expire_in

datatype level = Debug | Info | Warning | Error

text \<open>
  The channel and its world.
  \<^item> \<open>http\<close>: \<^verbatim>\<open>self._http\<close> is not \<^verbatim>\<open>None\<close>.
  \<^item> \<open>active_cards\<close>: the dict \<^verbatim>\<open>_active_cards\<close> in insertion order; its values are
    references into \<open>heap\<close>, where the \<^verbatim>\<open>_ActiveCard\<close> objects live, so that a card changed
    through a local variable is changed in the dict too. \<open>next_ref\<close> is the next free reference.
  \<^item> \<open>background_tasks\<close>: the tasks of \<^verbatim>\<open>_background_tasks\<close>, in the order the set is iterated.
  \<^item> \<open>trace\<close>, \<open>logs\<close>: the events and the log lines so far.
  \<^item> \<open>clock\<close>, \<open>ticks\<close>: the \<open>n\<close>-th call of \<^verbatim>\<open>time.time()\<close> returns \<open>clock n\<close>.
  \<^item> \<open>uuids\<close>, \<open>uuid_i\<close>: the \<open>n\<close>-th call of \<^verbatim>\<open>uuid.uuid4().hex\<close> returns \<open>uuids n\<close>.
  \<^item> \<open>token_reply\<close>, \<open>http_reply\<close>, \<open>handle_raises\<close>: how the world answers a request made
    after \<open>n\<close> events.
\<close>

record chan =
  reply_mode :: string
  client_id :: string
  client_secret :: string
  running :: bool
  http :: bool
  access_token :: "string option"
  token_expiry :: real
  background_tasks :: "nat list"
  active_cards :: "(string \<times> nat) list"
  heap :: "nat \<Rightarrow> active_card"
  next_ref :: nat
  trace :: "event list"
  logs :: "(level \<times> string) list"
  clock :: "nat \<Rightarrow> real"
  ticks :: nat
  uuids :: "nat \<Rightarrow> string"
  uuid_i :: nat
  token_reply :: "nat \<Rightarrow> token_outcome"
  http_reply :: "nat \<Rightarrow> event \<Rightarrow> http_outcome"
  handle_raises :: "nat \<Rightarrow> bool"

subsection \<open>Effects\<close>

definition logf :: "level \<Rightarrow> string \<Rightarrow> chan \<Rightarrow> chan" where
  "logf l m s = s\<lparr>logs := logs s @ [(l, m)]\<rparr>"

definition emit :: "event \<Rightarrow> chan \<Rightarrow> chan" where
  "emit e s = s\<lparr>trace := trace s @ [e]\<rparr>"

definition time_time :: "chan \<Rightarrow> real \<times> chan" where
  "time_time s = (clock s (ticks s), s\<lparr>ticks := Suc (ticks s)\<rparr>)"

definition uuid4_hex :: "chan \<Rightarrow> string \<times> chan" where
  "uuid4_hex s = (uuids s (uuid_i s), s\<lparr>uuid_i := Suc (uuid_i s)\<rparr>)"

definition http_call :: "event \<Rightarrow> chan \<Rightarrow> http_outcome \<times> chan" where
  "http_call e s = (http_reply s (length (trace s)) e, emit e s)"

definition set_card :: "nat \<Rightarrow> active_card \<Rightarrow> chan \<Rightarrow> chan" where
  "set_card r c s = s\<lparr>heap := (heap s)(r := c)\<rparr>"

subsection \<open>\<^verbatim>\<open>_get_access_token\<close>\<close>

text \<open>
  \<open>refresh_access_token\<close> is the method from line 235 on, after the test of the cache;
  \<open>get_access_token\<close> is the whole method.
  \<^verbatim>\<open>self._access_token and time.time() < self._token_expiry\<close> reads the clock only when a
  non-empty token is stored. In the refresh, \<^verbatim>\<open>self._access_token\<close> is assigned before
  \<^verbatim>\<open>time.time() + int(res_data.get("expireIn", 7200)) - 60\<close> is evaluated, left to right.
\<close>

text \<open>
  \<^verbatim>\<open>time.time() + int(...)\<close> converts the integer to a float, which raises
  \<^verbatim>\<open>OverflowError\<close> when the integer, rounded to 53 bits, does not fit: from
  \<open>2 ^ 1024 - 2 ^ 970\<close> on. The sum itself is taken in the reals; the rounding of floats is
  left out.
\<close>

definition int_fits_float :: "int \<Rightarrow> bool" where
  "int_fits_float n \<longleftrightarrow> \<bar>n\<bar> < 2 ^ 1024 - 2 ^ 970"

definition refresh_access_token :: "chan \<Rightarrow> string option \<times> chan" where
  "refresh_access_token s =
     (if \<not> http s then
        (None, logf Warning ''DingTalk HTTP client not initialized, cannot refresh token'' s)
      else
        let s1 = emit (TokenRequest (client_id s) (client_secret s)) s in
        (case token_reply s (length (trace s)) of
           TokenRaised \<Rightarrow> (None, logf Error ''Failed to get DingTalk access token: {}'' s1)
         | TokenJson tok ttl \<Rightarrow>
             let s2 = s1\<lparr>access_token := tok\<rparr>;
                 (now, s3) = time_time s2
             in (case ttl of
                   ExpireBad \<Rightarrow> (None, logf Error ''Failed to get DingTalk access token: {}'' s3)
                 | ExpireAbsent \<Rightarrow> (tok, s3\<lparr>token_expiry := now + 7200 - 60\<rparr>)
                 | ExpireInt n \<Rightarrow>
                     if int_fits_float n then
                       (tok, s3\<lparr>token_expiry := now + real_of_int n - 60\<rparr>)
                     else (None, logf Error ''Failed to get DingTalk access token: {}'' s3))))"

definition get_access_token :: "chan \<Rightarrow> string option \<times> chan" where
  "get_access_token s =
     (case access_token s of
        None \<Rightarrow> refresh_access_token s
      | Some t \<Rightarrow>
          if t = [] then refresh_access_token s
          else
            let (now, s1) = time_time s in
            if now < token_expiry s1 then (Some t, s1) else refresh_access_token s1)"

subsection \<open>Text mode\<close>

definition send_text :: "outbound_message \<Rightarrow> chan \<Rightarrow> chan" where
  "send_text msg s =
     (if map_of (metadata msg) ''_dingtalk_conversation_type'' = Some (PyStr ''2'') then
        logf Warning ''Text fallback not supported for group chats, skipping message to {}'' s
      else
        let (token, s1) = get_access_token s in
        (case token of
           None \<Rightarrow> s1
         | Some t \<Rightarrow>
             if t = [] then s1
             else if \<not> http s1 then
               logf Warning ''DingTalk HTTP client not initialized, cannot send'' s1
             else
               let (res, s2) = http_call (BatchSend t (client_id s1) (chat_id msg) (content msg)) s1 in
               (case res of
                  Raised \<Rightarrow> logf Error ''Error sending DingTalk message: {}'' s2
                | Status c \<Rightarrow>
                    if c \<noteq> 200 then logf Error ''DingTalk send failed: {}'' s2
                    else logf Debug ''DingTalk message sent to {}'' s2)))"

subsection \<open>Card API helpers\<close>

definition build_open_space_id :: "(string \<times> pyval) list \<Rightarrow> string" where
  "build_open_space_id md =
     (if get_default md ''_dingtalk_conversation_type'' (PyStr []) = PyStr ''2'' then
        ''dtv1.card//IM_GROUP.'' @ py_str (get_default md ''_dingtalk_conversation_id'' (PyStr []))
      else
        ''dtv1.card//IM_ROBOT.'' @ py_str (get_default md ''_dingtalk_sender_staff_id'' (PyStr [])))"

text \<open>The body and header of the create request (lines 376-397): the deliver model differs
  between group and private chat.\<close>

definition create_request :: "outbound_message \<Rightarrow> string \<Rightarrow> string \<Rightarrow> string \<Rightarrow> event" where
  "create_request msg robot_code token cid =
     CreateAndDeliver token cid (build_open_space_id (metadata msg))
       (if get_default (metadata msg) ''_dingtalk_conversation_type'' (PyStr []) = PyStr ''2''
        then ImGroupOpenDeliverModel robot_code
        else ImRobotOpenDeliverModel ''IM_ROBOT'')"

text \<open>\<^verbatim>\<open>_card_create\<close> returns the reference of the new card object, or \<open>None\<close>.\<close>

definition card_create :: "outbound_message \<Rightarrow> chan \<Rightarrow> nat option \<times> chan" where
  "card_create msg s =
     (let (token, s1) = get_access_token s in
      (case token of
         None \<Rightarrow> (None, s1)
       | Some t \<Rightarrow>
           if t = [] \<or> \<not> http s1 then (None, s1)
           else
             let (u, s2) = uuid4_hex s1;
                 cid = ''card_'' @ u;
                 (res, s3) = http_call (create_request msg (client_id s2) t cid) s2
             in (case res of
                   Raised \<Rightarrow> (None, logf Error ''Error creating DingTalk AI card: {}'' s3)
                 | Status c \<Rightarrow>
                     if c \<noteq> 200 then (None, logf Error ''DingTalk card create failed ({}): {}'' s3)
                     else
                       let s4 = logf Debug ''DingTalk AI card created: {}'' s3;
                           (now, s5) = time_time s4;
                           r = next_ref s5;
                           card = \<lparr>card_instance_id = cid, accumulated_content = [],
                                   inputing_started = False, created_at = now\<rparr>
                       in (Some r, (set_card r card s5)\<lparr>next_ref := Suc r\<rparr>))))"

definition card_put_data :: "nat \<Rightarrow> string \<Rightarrow> string \<Rightarrow> chan \<Rightarrow> chan" where
  "card_put_data r flow_status cont s =
     (let (token, s1) = get_access_token s in
      (case token of
         None \<Rightarrow> s1
       | Some t \<Rightarrow>
           if t = [] \<or> \<not> http s1 then s1
           else
             let (res, s2) =
                   http_call (PutCardData t (card_instance_id (heap s1 r)) flow_status cont) s1
             in (case res of
                   Raised \<Rightarrow> logf Error ''Error updating DingTalk AI card data: {}'' s2
                 | Status c \<Rightarrow>
                     if c \<noteq> 200 then logf Error ''DingTalk card put_data failed ({}): {}'' s2
                     else logf Debug ''DingTalk card put_data (flowStatus={})'' s2)))"

definition card_ensure_inputing :: "nat \<Rightarrow> chan \<Rightarrow> chan" where
  "card_ensure_inputing r s =
     (if inputing_started (heap s r) then s
      else
        let s1 = card_put_data r ''2'' [] s in
        set_card r ((heap s1 r)\<lparr>inputing_started := True\<rparr>) s1)"

definition card_stream :: "nat \<Rightarrow> string \<Rightarrow> bool \<Rightarrow> chan \<Rightarrow> chan" where
  "card_stream r cont is_finalize s =
     (let s0 = card_ensure_inputing r s;
          (token, s1) = get_access_token s0
      in (case token of
            None \<Rightarrow> s1
          | Some t \<Rightarrow>
              if t = [] \<or> \<not> http s1 then s1
              else
                let (g, s2) = uuid4_hex s1;
                    (res, s3) =
                      http_call (CardStreaming t (card_instance_id (heap s2 r)) g cont is_finalize) s2
                in (case res of
                      Raised \<Rightarrow> logf Error ''Error streaming DingTalk AI card: {}'' s3
                    | Status c \<Rightarrow>
                        if c \<noteq> 200 then logf Error ''DingTalk card streaming failed ({}): {}'' s3
                        else logf Debug ''DingTalk card streamed (finalize={})'' s3)))"

definition card_finish :: "nat \<Rightarrow> chan \<Rightarrow> chan" where
  "card_finish r s =
     (let acc = accumulated_content (heap s r);
          cont = (if acc = [] then ''...'' else acc);
          s1 = card_stream r cont True s
      in card_put_data r ''3'' cont s1)"

subsection \<open>Other coroutines during an await\<close>

text \<open>
  The definitions above run a method from its first line to its last. On the event loop
  another coroutine of the channel can run while a method is suspended in an
  \<^verbatim>\<open>await\<close>. The variants below make one such point explicit, the
  \<^verbatim>\<open>await self._http.put(...)\<close> of \<^verbatim>\<open>_card_put_data\<close> (line 432): \<open>others\<close> is what the
  other coroutines do to the channel between the request and the look at its answer.
  With \<open>others\<close> the identity they are the methods above.
\<close>

definition card_put_data_suspended ::
  "(chan \<Rightarrow> chan) \<Rightarrow> nat \<Rightarrow> string \<Rightarrow> string \<Rightarrow> chan \<Rightarrow> chan"
where
  "card_put_data_suspended others r flow_status cont s =
     (let (token, s1) = get_access_token s in
      (case token of
         None \<Rightarrow> s1
       | Some t \<Rightarrow>
           if t = [] \<or> \<not> http s1 then s1
           else
             let (res, s2) =
                   http_call (PutCardData t (card_instance_id (heap s1 r)) flow_status cont) s1;
                 s3 = others s2
             in (case res of
                   Raised \<Rightarrow> logf Error ''Error updating DingTalk AI card data: {}'' s3
                 | Status c \<Rightarrow>
                     if c \<noteq> 200 then logf Error ''DingTalk card put_data failed ({}): {}'' s3
                     else logf Debug ''DingTalk card put_data (flowStatus={})'' s3)))"

text \<open>\<^verbatim>\<open>_card_ensure_inputing\<close> and \<^verbatim>\<open>_card_stream\<close>, suspended in the announce request.\<close>

definition card_ensure_inputing_suspended :: "(chan \<Rightarrow> chan) \<Rightarrow> nat \<Rightarrow> chan \<Rightarrow> chan" where
  "card_ensure_inputing_suspended others r s =
     (if inputing_started (heap s r) then s
      else
        let s1 = card_put_data_suspended others r ''2'' [] s in
        set_card r ((heap s1 r)\<lparr>inputing_started := True\<rparr>) s1)"

definition card_stream_suspended ::
  "(chan \<Rightarrow> chan) \<Rightarrow> nat \<Rightarrow> string \<Rightarrow> bool \<Rightarrow> chan \<Rightarrow> chan"
where
  "card_stream_suspended others r cont is_finalize s =
     (let s0 = card_ensure_inputing_suspended others r s;
          (token, s1) = get_access_token s0
      in (case token of
            None \<Rightarrow> s1
          | Some t \<Rightarrow>
              if t = [] \<or> \<not> http s1 then s1
              else
                let (g, s2) = uuid4_hex s1;
                    (res, s3) =
                      http_call (CardStreaming t (card_instance_id (heap s2 r)) g cont is_finalize) s2
                in (case res of
                      Raised \<Rightarrow> logf Error ''Error streaming DingTalk AI card: {}'' s3
                    | Status c \<Rightarrow>
                        if c \<noteq> 200 then logf Error ''DingTalk card streaming failed ({}): {}'' s3
                        else logf Debug ''DingTalk card streamed (finalize={})'' s3)))"

text \<open>\<^verbatim>\<open>_card_finish\<close>, suspended in the finished update.\<close>

definition card_finish_suspended :: "(chan \<Rightarrow> chan) \<Rightarrow> nat \<Rightarrow> chan \<Rightarrow> chan" where
  "card_finish_suspended others r s =
     (let acc = accumulated_content (heap s r);
          cont = (if acc = [] then ''...'' else acc);
          s1 = card_stream r cont True s
      in card_put_data_suspended others r ''3'' cont s1)"

subsection \<open>AI card mode: \<^verbatim>\<open>_send_ai_card\<close>\<close>

text \<open>
  Lines 315-324, "Evict stale cards (TTL expired)": the value of the local variable
  \<^verbatim>\<open>card\<close> afterwards. The clock is read only when the dict has a card for the key.
  The handler around \<^verbatim>\<open>_card_finish\<close> has nothing to catch (see \<open>on_message\<close> below).
\<close>

definition evict_stale :: "string \<Rightarrow> chan \<Rightarrow> nat option \<times> chan" where
  "evict_stale key s =
     (case map_of (active_cards s) key of
        None \<Rightarrow> (None, s)
      | Some r \<Rightarrow>
          let (now, s1) = time_time s in
          if now - created_at (heap s1 r) > CARD_TTL_SECONDS then
            let s2 = logf Warning ''Evicting stale AI card for chat {}'' s1;
                s3 = card_finish r s2
            in (None, s3\<lparr>active_cards := AList.delete key (active_cards s3)\<rparr>)
          else (Some r, s1))"

definition send_ai_card :: "outbound_message \<Rightarrow> chan \<Rightarrow> chan" where
  "send_ai_card msg s =
     (let is_progress = truthy (map_of (metadata msg) ''_progress'');
          key = chat_id msg;
          (card, s1) = evict_stale key s
      in
        if is_progress then
          (case (case card of
                   Some r \<Rightarrow> (Some r, s1)
                 | None \<Rightarrow>
                     (case card_create msg s1 of
                        (None, s2) \<Rightarrow> (None, send_text msg s2)
                      | (Some r, s2) \<Rightarrow>
                          (Some r, s2\<lparr>active_cards := AList.update key r (active_cards s2)\<rparr>)))
           of
             (None, s3) \<Rightarrow> s3
           | (Some r, s3) \<Rightarrow>
               let c = heap s3 r;
                   s4 = set_card r
                          (c\<lparr>accumulated_content :=
                               accumulated_content c @ content msg @ [CHR 0x0A, CHR 0x0A]\<rparr>) s3
               in card_stream r (accumulated_content (heap s4 r)) False s4)
        else
          (case card of
             Some r \<Rightarrow>
               let c = heap s1 r;
                   s2 = set_card r
                          (c\<lparr>accumulated_content := accumulated_content c @ content msg\<rparr>) s1;
                   s3 = card_finish r s2
               in s3\<lparr>active_cards := AList.delete key (active_cards s3)\<rparr>
           | None \<Rightarrow>
               (case card_create msg s1 of
                  (None, s2) \<Rightarrow> send_text msg s2
                | (Some r, s2) \<Rightarrow>
                    card_finish r
                      (set_card r ((heap s2 r)\<lparr>accumulated_content := content msg\<rparr>) s2))))"

subsection \<open>The send dispatcher\<close>

definition send :: "outbound_message \<Rightarrow> chan \<Rightarrow> chan" where
  "send msg s =
     (if reply_mode s = ''ai_card'' \<and> truthy (map_of (metadata msg) ''_dingtalk_conversation_type'')
      then send_ai_card msg s
      else send_text msg s)"

subsection \<open>Inbound messages: \<^verbatim>\<open>_on_message\<close>\<close>

text \<open>
  \<^verbatim>\<open>BaseChannel._handle_message\<close> is not part of this file: its call is the event
  \<open>HandleMessage\<close>, and the world says whether it raises. \<^verbatim>\<open>_card_finish\<close> raises no
  \<^verbatim>\<open>Exception\<close> (each of its remote calls is caught where it is made), so the handler
  around it has nothing to catch.
\<close>

definition on_message ::
  "string \<Rightarrow> string \<Rightarrow> string \<Rightarrow> string option \<Rightarrow> (string \<times> pyval) list option \<Rightarrow> chan \<Rightarrow> chan"
where
  "on_message cont sender_id sender_name chat md s =
     (let resolved_chat_id =
            (case chat of None \<Rightarrow> sender_id | Some c \<Rightarrow> if c = [] then sender_id else c);
          old_card = map_of (active_cards s) resolved_chat_id;
          s1 = s\<lparr>active_cards := AList.delete resolved_chat_id (active_cards s)\<rparr>;
          s2 = (case old_card of
                  None \<Rightarrow> s1
                | Some r \<Rightarrow>
                    card_finish r
                      (logf Info ''Finishing stale AI card for {} (new message received)'' s1));
          s3 = logf Info ''DingTalk inbound: {} from {}'' s2;
          dflt = [(''sender_name'', PyStr sender_name), (''platform'', PyStr ''dingtalk'')];
          md1 = (case md of None \<Rightarrow> dflt | Some m \<Rightarrow> if m = [] then dflt else m);
          raised = handle_raises s3 (length (trace s3));
          s4 = emit (HandleMessage sender_id resolved_chat_id cont md1) s3
      in if raised then logf Error ''Error publishing DingTalk message: {}'' s4 else s4)"

text \<open>
  The same method with its two openings made explicit. \<open>hm\<close> stands for
  \<^verbatim>\<open>self._handle_message\<close>, a method of the channel: it is given the state of the channel
  at the moment of the call and returns whether it raised, and the state it left.
  \<open>others\<close> is what other coroutines do while \<^verbatim>\<open>_on_message\<close> is suspended in the
  finished update of \<^verbatim>\<open>_card_finish\<close>. \<open>handle_message\<close> is the handler \<open>on_message\<close>
  uses: the event, and the verdict of the world.
\<close>

definition handle_message ::
  "string \<Rightarrow> string \<Rightarrow> string \<Rightarrow> (string \<times> pyval) list \<Rightarrow> chan \<Rightarrow> bool \<times> chan"
where
  "handle_message sender_id chat cont md s =
     (handle_raises s (length (trace s)), emit (HandleMessage sender_id chat cont md) s)"

definition on_message_run ::
  "(chan \<Rightarrow> chan) \<Rightarrow>
   (string \<Rightarrow> string \<Rightarrow> string \<Rightarrow> (string \<times> pyval) list \<Rightarrow> chan \<Rightarrow> bool \<times> chan) \<Rightarrow>
   string \<Rightarrow> string \<Rightarrow> string \<Rightarrow> string option \<Rightarrow> (string \<times> pyval) list option \<Rightarrow> chan \<Rightarrow> chan"
where
  "on_message_run others hm cont sender_id sender_name chat md s =
     (let resolved_chat_id =
            (case chat of None \<Rightarrow> sender_id | Some c \<Rightarrow> if c = [] then sender_id else c);
          old_card = map_of (active_cards s) resolved_chat_id;
          s1 = s\<lparr>active_cards := AList.delete resolved_chat_id (active_cards s)\<rparr>;
          s2 = (case old_card of
                  None \<Rightarrow> s1
                | Some r \<Rightarrow>
                    card_finish_suspended others r
                      (logf Info ''Finishing stale AI card for {} (new message received)'' s1));
          s3 = logf Info ''DingTalk inbound: {} from {}'' s2;
          dflt = [(''sender_name'', PyStr sender_name), (''platform'', PyStr ''dingtalk'')];
          md1 = (case md of None \<Rightarrow> dflt | Some m \<Rightarrow> if m = [] then dflt else m);
          (raised, s4) = hm sender_id resolved_chat_id cont md1 s3
      in if raised then logf Error ''Error publishing DingTalk message: {}'' s4 else s4)"

text \<open>A handler that does nothing but report, in the metadata of its event, whether the
  dict has a card for the chat at the moment it is called.\<close>

definition probe_message ::
  "string \<Rightarrow> string \<Rightarrow> string \<Rightarrow> (string \<times> pyval) list \<Rightarrow> chan \<Rightarrow> bool \<times> chan"
where
  "probe_message sender_id chat cont md s =
     (False,
      emit (HandleMessage sender_id chat cont
              [(''card_open'', PyBool (map_of (active_cards s) chat \<noteq> None))]) s)"

subsection \<open>\<^verbatim>\<open>stop\<close>\<close>

text \<open>
  The loop over \<^verbatim>\<open>list(self._active_cards.items())\<close> with its handler. The finisher is a
  parameter that returns whether it raised together with the state it left behind, so that
  the handler is a branch; \<open>stop\<close> is the loop with \<open>card_finish\<close>.
  \<^verbatim>\<open>aclose()\<close> and \<^verbatim>\<open>task.cancel()\<close> return normally.
\<close>

fun finish_cards :: "(nat \<Rightarrow> chan \<Rightarrow> bool \<times> chan) \<Rightarrow> (string \<times> nat) list \<Rightarrow> chan \<Rightarrow> chan" where
  "finish_cards fin [] s = s"
| "finish_cards fin ((key, r) # cards) s =
     (let (raised, s1) = fin r s in
      finish_cards fin cards
        (if raised then logf Warning ''Failed to finish card for {} on stop: {}'' s1 else s1))"

definition stop_with :: "(nat \<Rightarrow> chan \<Rightarrow> bool \<times> chan) \<Rightarrow> chan \<Rightarrow> chan" where
  "stop_with fin s =
     (let s1 = s\<lparr>running := False\<rparr>;
          s2 = finish_cards fin (active_cards s1) s1;
          s3 = s2\<lparr>active_cards := []\<rparr>;
          s4 = (if http s3 then (emit HttpClose s3)\<lparr>http := False\<rparr> else s3);
          s5 = fold (\<lambda>t. emit (TaskCancel t)) (background_tasks s4) s4
      in s5\<lparr>background_tasks := []\<rparr>)"

definition stop :: "chan \<Rightarrow> chan" where
  "stop s = stop_with (\<lambda>r s. (False, card_finish r s)) s"

subsection \<open>Reading a trace\<close>

fun is_token_request :: "event \<Rightarrow> bool" where
  "is_token_request (TokenRequest _ _) = True"
| "is_token_request _ = False"

definition card_calls :: "event list \<Rightarrow> event list" where
  "card_calls evs = filter (\<lambda>e. \<not> is_token_request e) evs"

fun is_announce :: "event \<Rightarrow> bool" where
  "is_announce (PutCardData _ _ fs _) = (fs = ''2'')"
| "is_announce _ = False"

text \<open>A non-empty token is cached, the client is there, and no clock reading reaches the
  cached expiry: every \<open>get_access_token\<close> returns the cached token \<open>t\<close>.\<close>

definition token_ok :: "chan \<Rightarrow> string \<Rightarrow> bool" where
  "token_ok s t \<longleftrightarrow>
     http s \<and> access_token s = Some t \<and> t \<noteq> [] \<and> (\<forall>n. clock s n < token_expiry s)"

fun is_create :: "event \<Rightarrow> bool" where
  "is_create (CreateAndDeliver _ _ _ _) = True"
| "is_create _ = False"

text \<open>
  \<open>sim s t\<close>: the two states are the same channel in the same world, except for the log
  and for what the world answers to requests other than card creation.
\<close>

definition sim :: "chan \<Rightarrow> chan \<Rightarrow> bool" where
  "sim s t \<longleftrightarrow>
     reply_mode s = reply_mode t \<and> client_id s = client_id t \<and> client_secret s = client_secret t \<and>
     running s = running t \<and> http s = http t \<and> access_token s = access_token t \<and>
     token_expiry s = token_expiry t \<and> background_tasks s = background_tasks t \<and>
     active_cards s = active_cards t \<and> heap s = heap t \<and> next_ref s = next_ref t \<and>
     trace s = trace t \<and> clock s = clock t \<and> ticks s = ticks t \<and> uuids s = uuids t \<and>
     uuid_i s = uuid_i t \<and> token_reply s = token_reply t \<and> handle_raises s = handle_raises t \<and>
     (\<forall>n e. is_create e \<longrightarrow> http_reply s n e = http_reply t n e)"

fun is_batch_send :: "event \<Rightarrow> bool" where
  "is_batch_send (BatchSend _ _ _ _) = True"
| "is_batch_send _ = False"

text \<open>The test of line 232: a non-empty token is stored and the clock, read now, is before
  the stored expiry.\<close>

definition cache_hit :: "chan \<Rightarrow> bool" where
  "cache_hit s \<longleftrightarrow>
     (case access_token s of
        None \<Rightarrow> False
      | Some t \<Rightarrow> t \<noteq> [] \<and> clock s (ticks s) < token_expiry s)"

text \<open>Every reference in the dict has been handed out: it lies below \<open>next_ref\<close>.\<close>

definition refs_ok :: "chan \<Rightarrow> bool" where
  "refs_ok s \<longleftrightarrow> (\<forall>(k, r) \<in> set (active_cards s). r < next_ref s)"

subsection \<open>Concrete worlds\<close>

text \<open>
  A channel in card mode with one open card for the chat \<open>chat1\<close>, a cached token that stays
  valid, and remote endpoints that answer 200. The variants below change single fields.
\<close>

definition card0 :: active_card where
  "card0 = \<lparr>card_instance_id = ''card_0'', accumulated_content = [],
             inputing_started = False, created_at = 1000\<rparr>"

definition world0 :: chan where
  "world0 = \<lparr>reply_mode = ''ai_card'', client_id = ''app'', client_secret = ''secret'',
     running = True, http = True, access_token = Some ''tok'', token_expiry = 5000,
     background_tasks = [7, 8], active_cards = [(''chat1'', 0)], heap = (\<lambda>_. card0),
     next_ref = 1, trace = [], logs = [], clock = (\<lambda>n. 1000), ticks = 0,
     uuids = (\<lambda>n. if n = 0 then ''u0'' else if n = 1 then ''u1'' else ''u2''), uuid_i = 0,
     token_reply = (\<lambda>n. TokenRaised), http_reply = (\<lambda>n e. Status 200),
     handle_raises = (\<lambda>n. False)\<rparr>"

text \<open>The same world with every card request raising.\<close>

definition world_down :: chan where
  "world_down = world0\<lparr>http_reply := (\<lambda>n e. Raised)\<rparr>"

text \<open>The same world with the card already announced and some text on it.\<close>

definition world_started :: chan where
  "world_started =
     world0\<lparr>heap := (\<lambda>_. card0\<lparr>inputing_started := True, accumulated_content := ''hi''\<rparr>)\<rparr>"

text \<open>The same world without an HTTP client.\<close>

definition world_no_http :: chan where
  "world_no_http = world0\<lparr>http := False\<rparr>"

text \<open>Two open cards, for \<open>chat1\<close> and \<open>chat2\<close>.\<close>

definition world_two :: chan where
  "world_two =
     world0\<lparr>active_cards := [(''chat1'', 0), (''chat2'', 1)],
            heap := (\<lambda>r. card0\<lparr>card_instance_id := (if r = 0 then ''card_0'' else ''card_1'')\<rparr>),
            next_ref := 2\<rparr>"

text \<open>The announced card, with every request raising; and with only creation raising.\<close>

definition world_down_started :: chan where
  "world_down_started = world_started\<lparr>http_reply := (\<lambda>n e. Raised)\<rparr>"

definition world_half_down :: chan where
  "world_half_down =
     world_started\<lparr>http_reply := (\<lambda>n e. if is_create e then Raised else Status 200)\<rparr>"

text \<open>A progress message of a group chat and one of a private chat, neither with a card.\<close>

definition group_msg :: outbound_message where
  "group_msg = \<lparr>chat_id = ''group9'', content = ''thinking...'',
     metadata = [(''_dingtalk_conversation_type'', PyStr ''2''),
                 (''_dingtalk_conversation_id'', PyStr ''cid9''), (''_progress'', PyBool True)]\<rparr>"

definition private_msg :: outbound_message where
  "private_msg = \<lparr>chat_id = ''user5'', content = ''thinking...'',
     metadata = [(''_dingtalk_conversation_type'', PyStr ''1''),
                 (''_dingtalk_sender_staff_id'', PyStr ''staff5''), (''_progress'', PyBool True)]\<rparr>"

text \<open>The world with the clock at 2000, where the card created at 1000 is stale; and a
  progress message for its chat.\<close>

definition world_stale :: chan where
  "world_stale = world0\<lparr>clock := (\<lambda>n. 2000)\<rparr>"

definition chat1_msg :: outbound_message where
  "chat1_msg = \<lparr>chat_id = ''chat1'', content = ''thinking...'',
     metadata = [(''_dingtalk_conversation_type'', PyStr ''1''),
                 (''_dingtalk_sender_staff_id'', PyStr ''staff1''), (''_progress'', PyBool True)]\<rparr>"

text \<open>The second progress message and the final message of that chat; and the world with
  no card at all.\<close>

definition still_msg :: outbound_message where
  "still_msg = \<lparr>chat_id = ''chat1'', content = ''still thinking...'',
     metadata = [(''_dingtalk_conversation_type'', PyStr ''1''),
                 (''_dingtalk_sender_staff_id'', PyStr ''staff1''), (''_progress'', PyBool True)]\<rparr>"

definition final_msg :: outbound_message where
  "final_msg = \<lparr>chat_id = ''chat1'', content = ''done'',
     metadata = [(''_dingtalk_conversation_type'', PyStr ''1''),
                 (''_dingtalk_sender_staff_id'', PyStr ''staff1'')]\<rparr>"

definition world_empty :: chan where
  "world_empty = world0\<lparr>active_cards := []\<rparr>"

text \<open>The cached token \<open>old\<close> has expired, and the token endpoint answers with a token
  and an \<open>expireIn\<close> on which \<open>int()\<close> raises.\<close>

definition world_bad_ttl :: chan where
  "world_bad_ttl =
     world0\<lparr>access_token := Some ''old'', token_expiry := 500,
            token_reply := (\<lambda>n. TokenJson (Some ''new'') ExpireBad)\<rparr>"

text \<open>The world with text on the card of \<open>chat1\<close>, which is not announced yet.\<close>

definition world_typing :: chan where
  "world_typing = world0\<lparr>heap := (\<lambda>_. card0\<lparr>accumulated_content := ''hi''\<rparr>)\<rparr>"

section \<open>Properties\<close>

subsection \<open>What each method leaves unchanged, and the calls it makes\<close>

lemma card_calls_append [simp]: "card_calls (xs @ ys) = card_calls xs @ card_calls ys"
  by (simp add: card_calls_def)

lemma card_calls_simps [simp]:
  "card_calls [] = []"
  "card_calls (e # es) = (if is_token_request e then card_calls es else e # card_calls es)"
  by (simp_all add: card_calls_def)

lemmas effect_defs = logf_def emit_def time_time_def uuid4_hex_def http_call_def set_card_def

lemma refresh_frame:
  "heap (snd (refresh_access_token s)) = heap s"
  "active_cards (snd (refresh_access_token s)) = active_cards s"
  "http (snd (refresh_access_token s)) = http s"
  "uuid_i (snd (refresh_access_token s)) = uuid_i s"
  "uuids (snd (refresh_access_token s)) = uuids s"
  "clock (snd (refresh_access_token s)) = clock s"
  "next_ref (snd (refresh_access_token s)) = next_ref s"
  "background_tasks (snd (refresh_access_token s)) = background_tasks s"
  "client_id (snd (refresh_access_token s)) = client_id s"
  "client_secret (snd (refresh_access_token s)) = client_secret s"
  "reply_mode (snd (refresh_access_token s)) = reply_mode s"
  "running (snd (refresh_access_token s)) = running s"
  "token_reply (snd (refresh_access_token s)) = token_reply s"
  "http_reply (snd (refresh_access_token s)) = http_reply s"
  "handle_raises (snd (refresh_access_token s)) = handle_raises s"
  "card_calls (trace (snd (refresh_access_token s))) = card_calls (trace s)"
  by (simp_all add: refresh_access_token_def effect_defs Let_def
        split: token_outcome.splits expire_in.splits)

lemma get_access_token_frame:
  "heap (snd (get_access_token s)) = heap s"
  "active_cards (snd (get_access_token s)) = active_cards s"
  "http (snd (get_access_token s)) = http s"
  "uuid_i (snd (get_access_token s)) = uuid_i s"
  "uuids (snd (get_access_token s)) = uuids s"
  "clock (snd (get_access_token s)) = clock s"
  "next_ref (snd (get_access_token s)) = next_ref s"
  "background_tasks (snd (get_access_token s)) = background_tasks s"
  "client_id (snd (get_access_token s)) = client_id s"
  "client_secret (snd (get_access_token s)) = client_secret s"
  "reply_mode (snd (get_access_token s)) = reply_mode s"
  "running (snd (get_access_token s)) = running s"
  "token_reply (snd (get_access_token s)) = token_reply s"
  "http_reply (snd (get_access_token s)) = http_reply s"
  "handle_raises (snd (get_access_token s)) = handle_raises s"
  "card_calls (trace (snd (get_access_token s))) = card_calls (trace s)"
  by (simp_all add: get_access_token_def refresh_frame time_time_def Let_def
        split: option.splits)

lemma card_put_data_frame:
  "heap (card_put_data r fs c s) = heap s"
  "active_cards (card_put_data r fs c s) = active_cards s"
  "http (card_put_data r fs c s) = http s"
  "uuid_i (card_put_data r fs c s) = uuid_i s"
  "uuids (card_put_data r fs c s) = uuids s"
  "clock (card_put_data r fs c s) = clock s"
  "next_ref (card_put_data r fs c s) = next_ref s"
  "background_tasks (card_put_data r fs c s) = background_tasks s"
  "client_id (card_put_data r fs c s) = client_id s"
  "client_secret (card_put_data r fs c s) = client_secret s"
  "reply_mode (card_put_data r fs c s) = reply_mode s"
  "running (card_put_data r fs c s) = running s"
  "token_reply (card_put_data r fs c s) = token_reply s"
  "http_reply (card_put_data r fs c s) = http_reply s"
  "handle_raises (card_put_data r fs c s) = handle_raises s"
  by (simp_all add: card_put_data_def get_access_token_frame effect_defs Let_def case_prod_beta
        split: option.splits http_outcome.splits)

lemma card_put_data_calls:
  "\<exists>ts. card_calls (trace (card_put_data r fs c s)) =
          card_calls (trace s) @ map (\<lambda>t. PutCardData t (card_instance_id (heap s r)) fs c) ts
        \<and> length ts \<le> 1"
proof (cases "fst (get_access_token s)")
  case None
  then have "card_calls (trace (card_put_data r fs c s)) = card_calls (trace s) @ map (\<lambda>t. PutCardData t (card_instance_id (heap s r)) fs c) []"
    by (simp add: card_put_data_def get_access_token_frame case_prod_beta)
  then show ?thesis by (intro exI[of _ "[]"]) simp
next
  case (Some t)
  show ?thesis
  proof (cases "t = [] \<or> \<not> http s")
    case True
    with Some have "card_calls (trace (card_put_data r fs c s)) = card_calls (trace s) @ map (\<lambda>t. PutCardData t (card_instance_id (heap s r)) fs c) []"
      by (auto simp add: card_put_data_def get_access_token_frame case_prod_beta)
    then show ?thesis by (intro exI[of _ "[]"]) simp
  next
    case False
    with Some have "card_calls (trace (card_put_data r fs c s)) = card_calls (trace s) @ map (\<lambda>t. PutCardData t (card_instance_id (heap s r)) fs c) [t]"
      by (auto simp add: card_put_data_def get_access_token_frame effect_defs case_prod_beta
           split: http_outcome.splits)
    then show ?thesis by (intro exI[of _ "[t]"]) simp
  qed
qed

lemma card_ensure_inputing_noop:
  "inputing_started (heap s r) \<Longrightarrow> card_ensure_inputing r s = s"
  by (simp add: card_ensure_inputing_def)

lemma card_ensure_inputing_heap:
  "heap (card_ensure_inputing r s) = (heap s)(r := (heap s r)\<lparr>inputing_started := True\<rparr>)"
  by (auto simp add: card_ensure_inputing_def card_put_data_frame set_card_def Let_def)

lemma card_ensure_inputing_frame:
  "active_cards (card_ensure_inputing r s) = active_cards s"
  "http (card_ensure_inputing r s) = http s"
  "uuid_i (card_ensure_inputing r s) = uuid_i s"
  "uuids (card_ensure_inputing r s) = uuids s"
  "clock (card_ensure_inputing r s) = clock s"
  "next_ref (card_ensure_inputing r s) = next_ref s"
  "background_tasks (card_ensure_inputing r s) = background_tasks s"
  "client_id (card_ensure_inputing r s) = client_id s"
  "client_secret (card_ensure_inputing r s) = client_secret s"
  "reply_mode (card_ensure_inputing r s) = reply_mode s"
  "running (card_ensure_inputing r s) = running s"
  "token_reply (card_ensure_inputing r s) = token_reply s"
  "http_reply (card_ensure_inputing r s) = http_reply s"
  "handle_raises (card_ensure_inputing r s) = handle_raises s"
  by (simp_all add: card_ensure_inputing_def card_put_data_frame set_card_def Let_def)

lemma card_ensure_inputing_calls:
  "\<exists>ts. card_calls (trace (card_ensure_inputing r s)) =
          card_calls (trace s) @ map (\<lambda>t. PutCardData t (card_instance_id (heap s r)) ''2'' []) ts
        \<and> length ts \<le> 1 \<and> (inputing_started (heap s r) \<longrightarrow> ts = [])"
proof (cases "inputing_started (heap s r)")
  case True
  then show ?thesis
    by (intro exI[of _ "[]"]) (simp add: card_ensure_inputing_noop)
next
  case False
  obtain ts where "card_calls (trace (card_put_data r ''2'' [] s)) =
      card_calls (trace s) @ map (\<lambda>t. PutCardData t (card_instance_id (heap s r)) ''2'' []) ts"
    and "length ts \<le> 1"
    using card_put_data_calls by blast
  with False show ?thesis
    by (intro exI[of _ ts]) (simp add: card_ensure_inputing_def set_card_def Let_def)
qed

lemma card_stream_frame:
  "active_cards (card_stream r c f s) = active_cards s"
  "http (card_stream r c f s) = http s"
  "uuids (card_stream r c f s) = uuids s"
  "clock (card_stream r c f s) = clock s"
  "next_ref (card_stream r c f s) = next_ref s"
  "background_tasks (card_stream r c f s) = background_tasks s"
  "client_id (card_stream r c f s) = client_id s"
  "client_secret (card_stream r c f s) = client_secret s"
  "reply_mode (card_stream r c f s) = reply_mode s"
  "running (card_stream r c f s) = running s"
  "token_reply (card_stream r c f s) = token_reply s"
  "http_reply (card_stream r c f s) = http_reply s"
  "handle_raises (card_stream r c f s) = handle_raises s"
  "heap (card_stream r c f s) = (heap s)(r := (heap s r)\<lparr>inputing_started := True\<rparr>)"
  by (simp_all add: card_stream_def get_access_token_frame card_ensure_inputing_frame
        card_ensure_inputing_heap effect_defs Let_def case_prod_beta
        split: option.splits http_outcome.splits)

lemma card_stream_tail_calls:
  "\<exists>ts. card_calls (trace (card_stream r c f s)) =
          card_calls (trace (card_ensure_inputing r s))
          @ map (\<lambda>t. CardStreaming t (card_instance_id (heap s r)) (uuids s (uuid_i s)) c f) ts
        \<and> length ts \<le> 1"
proof -
  let ?s0 = "card_ensure_inputing r s"
  let ?ev = "\<lambda>t. CardStreaming t (card_instance_id (heap s r)) (uuids s (uuid_i s)) c f"
  show ?thesis
  proof (cases "fst (get_access_token ?s0)")
    case None
    then have "card_calls (trace (card_stream r c f s)) = card_calls (trace ?s0) @ map ?ev []"
      by (simp add: card_stream_def get_access_token_frame case_prod_beta Let_def)
    then show ?thesis by (intro exI[of _ "[]"]) simp
  next
    case (Some t)
    show ?thesis
    proof (cases "t = [] \<or> \<not> http s")
      case True
      with Some have "card_calls (trace (card_stream r c f s)) = card_calls (trace ?s0) @ map ?ev []"
        by (auto simp add: card_stream_def get_access_token_frame card_ensure_inputing_frame
              case_prod_beta Let_def)
      then show ?thesis by (intro exI[of _ "[]"]) simp
    next
      case False
      with Some have "card_calls (trace (card_stream r c f s)) = card_calls (trace ?s0) @ map ?ev [t]"
        by (auto simp add: card_stream_def get_access_token_frame card_ensure_inputing_frame
              card_ensure_inputing_heap effect_defs case_prod_beta Let_def
              split: http_outcome.splits)
      then show ?thesis by (intro exI[of _ "[t]"]) simp
    qed
  qed
qed

lemma card_stream_calls:
  "\<exists>ts1 ts2. card_calls (trace (card_stream r c f s)) =
          card_calls (trace s)
          @ map (\<lambda>t. PutCardData t (card_instance_id (heap s r)) ''2'' []) ts1
          @ map (\<lambda>t. CardStreaming t (card_instance_id (heap s r)) (uuids s (uuid_i s)) c f) ts2
        \<and> length ts1 \<le> 1 \<and> length ts2 \<le> 1 \<and> (inputing_started (heap s r) \<longrightarrow> ts1 = [])"
proof -
  obtain ts1 where 1: "card_calls (trace (card_ensure_inputing r s)) =
          card_calls (trace s) @ map (\<lambda>t. PutCardData t (card_instance_id (heap s r)) ''2'' []) ts1"
     "length ts1 \<le> 1" "inputing_started (heap s r) \<longrightarrow> ts1 = []"
    using card_ensure_inputing_calls by blast
  obtain ts2 where 2: "card_calls (trace (card_stream r c f s)) =
          card_calls (trace (card_ensure_inputing r s))
          @ map (\<lambda>t. CardStreaming t (card_instance_id (heap s r)) (uuids s (uuid_i s)) c f) ts2"
     "length ts2 \<le> 1"
    using card_stream_tail_calls by blast
  from 1 2 show ?thesis
    by (intro exI[of _ ts1] exI[of _ ts2]) simp
qed

lemma announce_card_calls: "filter is_announce (card_calls evs) = filter is_announce evs"
  by (induction evs) (auto elim: is_token_request.elims)

lemma filter_announce_put: "filter is_announce (map (\<lambda>t. PutCardData t cid ''2'' c) ts) = map (\<lambda>t. PutCardData t cid ''2'' c) ts"
  by (induction ts) auto

lemma filter_announce_stream: "filter is_announce (map (\<lambda>t. CardStreaming t cid g c f) ts) = []"
  by (induction ts) auto

lemma card_stream_announces:
  "\<exists>ts. filter is_announce (trace (card_stream r c f s)) =
      filter is_announce (trace s) @ map (\<lambda>t. PutCardData t (card_instance_id (heap s r)) ''2'' []) ts
    \<and> length ts \<le> 1 \<and> (inputing_started (heap s r) \<longrightarrow> ts = [])"
proof -
  obtain ts1 ts2 where *: "card_calls (trace (card_stream r c f s)) =
          card_calls (trace s)
          @ map (\<lambda>t. PutCardData t (card_instance_id (heap s r)) ''2'' []) ts1
          @ map (\<lambda>t. CardStreaming t (card_instance_id (heap s r)) (uuids s (uuid_i s)) c f) ts2"
     "length ts1 \<le> 1" "inputing_started (heap s r) \<longrightarrow> ts1 = []"
    using card_stream_calls by blast
  have "filter is_announce (trace (card_stream r c f s)) = filter is_announce (card_calls (trace (card_stream r c f s)))"
    by (simp add: announce_card_calls)
  also have "\<dots> = filter is_announce (trace s) @ map (\<lambda>t. PutCardData t (card_instance_id (heap s r)) ''2'' []) ts1"
    by (simp add: * announce_card_calls filter_announce_put filter_announce_stream)
  finally show ?thesis using * by blast
qed


lemma card_stream_no_announce:
  "inputing_started (heap s r) \<Longrightarrow>
   filter is_announce (trace (card_stream r c f s)) = filter is_announce (trace s)"
  using card_stream_announces [of r c f s] by auto



subsection \<open>With a valid cached token\<close>

lemma get_access_token_ok:
  "token_ok s t \<Longrightarrow> get_access_token s = (Some t, s\<lparr>ticks := Suc (ticks s)\<rparr>)"
  by (simp add: token_ok_def get_access_token_def time_time_def)

lemma card_put_data_ok:
  assumes "token_ok s t"
  shows "trace (card_put_data r fs c s) = trace s @ [PutCardData t (card_instance_id (heap s r)) fs c]"
    and "token_ok (card_put_data r fs c s) t"
  using assms
  by (auto simp add: card_put_data_def get_access_token_ok effect_defs token_ok_def
        split: http_outcome.splits)

lemma card_ensure_inputing_ok:
  assumes "token_ok s t"
  shows "trace (card_ensure_inputing r s) = trace s @
           (if inputing_started (heap s r) then []
            else [PutCardData t (card_instance_id (heap s r)) ''2'' []])"
    and "token_ok (card_ensure_inputing r s) t"
  using assms card_put_data_ok [OF assms, of r "''2''" "[]"]
  by (auto simp add: card_ensure_inputing_def set_card_def token_ok_def Let_def)

lemma card_stream_ok:
  assumes "token_ok s t"
  shows "trace (card_stream r c f s) = trace s @
           (if inputing_started (heap s r) then []
            else [PutCardData t (card_instance_id (heap s r)) ''2'' []])
           @ [CardStreaming t (card_instance_id (heap s r)) (uuids s (uuid_i s)) c f]"
    and "token_ok (card_stream r c f s) t"
    and "uuid_i (card_stream r c f s) = Suc (uuid_i s)"
proof -
  let ?s0 = "card_ensure_inputing r s"
  have ok0: "token_ok ?s0 t" using assms by (rule card_ensure_inputing_ok)
  have tok: "get_access_token ?s0 = (Some t, ?s0\<lparr>ticks := Suc (ticks ?s0)\<rparr>)"
    using ok0 by (rule get_access_token_ok)
  have ht: "http ?s0" "t \<noteq> []" using ok0 by (simp_all add: token_ok_def)
  show "trace (card_stream r c f s) = trace s @
           (if inputing_started (heap s r) then []
            else [PutCardData t (card_instance_id (heap s r)) ''2'' []])
           @ [CardStreaming t (card_instance_id (heap s r)) (uuids s (uuid_i s)) c f]"
    using ht card_ensure_inputing_ok(1) [OF assms, of r]
    by (simp add: card_stream_def tok effect_defs Let_def card_ensure_inputing_frame
          card_ensure_inputing_heap split: http_outcome.splits)
  show "token_ok (card_stream r c f s) t"
    using ht ok0
    by (simp add: card_stream_def tok effect_defs Let_def token_ok_def
          split: http_outcome.splits)
  show "uuid_i (card_stream r c f s) = Suc (uuid_i s)"
    using ht
    by (simp add: card_stream_def tok effect_defs Let_def card_ensure_inputing_frame
          split: http_outcome.splits)
qed

lemma card_finish_ok:
  assumes "token_ok s t"
  shows "trace (card_finish r s) = trace s @
           (if inputing_started (heap s r) then []
            else [PutCardData t (card_instance_id (heap s r)) ''2'' []])
           @ [CardStreaming t (card_instance_id (heap s r)) (uuids s (uuid_i s))
                (if accumulated_content (heap s r) = [] then ''...''
                 else accumulated_content (heap s r)) True,
              PutCardData t (card_instance_id (heap s r)) ''3''
                (if accumulated_content (heap s r) = [] then ''...''
                 else accumulated_content (heap s r))]"
    and "token_ok (card_finish r s) t"
    and "uuid_i (card_finish r s) = Suc (uuid_i s)"
proof -
  let ?c = "if accumulated_content (heap s r) = [] then ''...'' else accumulated_content (heap s r)"
  let ?s1 = "card_stream r ?c True s"
  have fin: "card_finish r s = card_put_data r ''3'' ?c ?s1"
    by (simp add: card_finish_def Let_def)
  have ok1: "token_ok ?s1 t" using assms by (rule card_stream_ok)
  show "token_ok (card_finish r s) t"
    unfolding fin using ok1 by (rule card_put_data_ok)
  show "uuid_i (card_finish r s) = Suc (uuid_i s)"
    unfolding fin using card_stream_ok(3) [OF assms] by (simp add: card_put_data_frame)
  show "trace (card_finish r s) = trace s @
           (if inputing_started (heap s r) then []
            else [PutCardData t (card_instance_id (heap s r)) ''2'' []])
           @ [CardStreaming t (card_instance_id (heap s r)) (uuids s (uuid_i s)) ?c True,
              PutCardData t (card_instance_id (heap s r)) ''3'' ?c]"
    unfolding fin
    using card_put_data_ok(1) [OF ok1, of r "''3''" ?c] card_stream_ok(1) [OF assms, of r ?c True]
    by (simp add: card_stream_frame)
qed

lemma card_finish_frame:
  "active_cards (card_finish r s) = active_cards s"
  "http (card_finish r s) = http s"
  "uuids (card_finish r s) = uuids s"
  "clock (card_finish r s) = clock s"
  "next_ref (card_finish r s) = next_ref s"
  "background_tasks (card_finish r s) = background_tasks s"
  "client_id (card_finish r s) = client_id s"
  "client_secret (card_finish r s) = client_secret s"
  "reply_mode (card_finish r s) = reply_mode s"
  "running (card_finish r s) = running s"
  "token_reply (card_finish r s) = token_reply s"
  "http_reply (card_finish r s) = http_reply s"
  "handle_raises (card_finish r s) = handle_raises s"
  "heap (card_finish r s) = (heap s)(r := (heap s r)\<lparr>inputing_started := True\<rparr>)"
  by (simp_all add: card_finish_def Let_def card_put_data_frame card_stream_frame)

lemma card_finish_calls:
  "\<exists>ts1 ts2 ts3.
     card_calls (trace (card_finish r s)) =
       card_calls (trace s)
       @ map (\<lambda>t. PutCardData t (card_instance_id (heap s r)) ''2'' []) ts1
       @ map (\<lambda>t. CardStreaming t (card_instance_id (heap s r)) (uuids s (uuid_i s))
                (if accumulated_content (heap s r) = [] then ''...''
                 else accumulated_content (heap s r)) True) ts2
       @ map (\<lambda>t. PutCardData t (card_instance_id (heap s r)) ''3''
                (if accumulated_content (heap s r) = [] then ''...''
                 else accumulated_content (heap s r))) ts3
     \<and> length ts1 \<le> 1 \<and> length ts2 \<le> 1 \<and> length ts3 \<le> 1
     \<and> (inputing_started (heap s r) \<longrightarrow> ts1 = [])"
proof -
  let ?c = "if accumulated_content (heap s r) = [] then ''...'' else accumulated_content (heap s r)"
  let ?s1 = "card_stream r ?c True s"
  have fin: "card_finish r s = card_put_data r ''3'' ?c ?s1"
    by (simp add: card_finish_def Let_def)
  obtain ts1 ts2 where 1: "card_calls (trace ?s1) =
          card_calls (trace s)
          @ map (\<lambda>t. PutCardData t (card_instance_id (heap s r)) ''2'' []) ts1
          @ map (\<lambda>t. CardStreaming t (card_instance_id (heap s r)) (uuids s (uuid_i s)) ?c True) ts2"
     "length ts1 \<le> 1" "length ts2 \<le> 1" "inputing_started (heap s r) \<longrightarrow> ts1 = []"
    using card_stream_calls [of r ?c True s] by blast
  obtain ts3 where 3: "card_calls (trace (card_put_data r ''3'' ?c ?s1)) =
          card_calls (trace ?s1)
          @ map (\<lambda>t. PutCardData t (card_instance_id (heap ?s1 r)) ''3'' ?c) ts3"
     "length ts3 \<le> 1"
    using card_put_data_calls [of r "''3''" ?c ?s1] by blast
  have cid: "card_instance_id (heap ?s1 r) = card_instance_id (heap s r)"
    by (simp add: card_stream_frame)
  show ?thesis
    unfolding fin using 1 3
    by (intro exI[of _ ts1] exI[of _ ts2] exI[of _ ts3]) (simp add: cid)
qed

subsection \<open>Answers that only reach the log\<close>

lemma sim_refl: "sim s s"
  by (simp add: sim_def)

lemma sim_logf: "sim s t \<Longrightarrow> sim (logf l m s) (logf l2 m2 t)"
  by (simp add: sim_def logf_def)

lemma sim_logf_left: "sim s t \<Longrightarrow> sim (logf l m s) t"
  by (simp add: sim_def logf_def)

lemma sim_logf_right: "sim s t \<Longrightarrow> sim s (logf l m t)"
  by (simp add: sim_def logf_def)

lemma sim_emit: "sim s t \<Longrightarrow> sim (emit e s) (emit e t)"
  by (simp add: sim_def emit_def)

lemma sim_set_card: "sim s t \<Longrightarrow> sim (set_card r c s) (set_card r c t)"
  by (simp add: sim_def set_card_def)

lemma sim_time: "sim s t \<Longrightarrow> fst (time_time s) = fst (time_time t) \<and> sim (snd (time_time s)) (snd (time_time t))"
  by (simp add: sim_def time_time_def)

lemma sim_uuid: "sim s t \<Longrightarrow> fst (uuid4_hex s) = fst (uuid4_hex t) \<and> sim (snd (uuid4_hex s)) (snd (uuid4_hex t))"
  by (simp add: sim_def uuid4_hex_def)

lemma sim_refresh:
  "sim s t \<Longrightarrow> fst (refresh_access_token s) = fst (refresh_access_token t) \<and>
     sim (snd (refresh_access_token s)) (snd (refresh_access_token t))"
  by (simp add: sim_def refresh_access_token_def effect_defs Let_def
        split: token_outcome.splits expire_in.splits)

lemma sim_get_access_token:
  assumes "sim s t"
  shows "fst (get_access_token s) = fst (get_access_token t)"
    and "sim (snd (get_access_token s)) (snd (get_access_token t))"
proof -
  have a: "access_token s = access_token t" using assms by (simp add: sim_def)
  have e: "token_expiry s = token_expiry t" "clock s (ticks s) = clock t (ticks t)"
    using assms by (simp_all add: sim_def)
  have tk: "sim (s\<lparr>ticks := Suc (ticks s)\<rparr>) (t\<lparr>ticks := Suc (ticks t)\<rparr>)"
    using assms by (simp add: sim_def)
  show "fst (get_access_token s) = fst (get_access_token t)"
    using sim_refresh [OF assms] sim_refresh [OF tk] a e
    by (simp add: get_access_token_def time_time_def split: option.splits)
  show "sim (snd (get_access_token s)) (snd (get_access_token t))"
    using sim_refresh [OF assms] sim_refresh [OF tk] a e tk
    by (simp add: get_access_token_def time_time_def split: option.splits)
qed

lemma sim_http_call:
  "sim s t \<Longrightarrow> sim (snd (http_call e s)) (snd (http_call e t))"
  "sim s t \<Longrightarrow> is_create e \<Longrightarrow> fst (http_call e s) = fst (http_call e t)"
  by (simp_all add: sim_def http_call_def emit_def)

lemma sim_card_put_data:
  assumes "sim s t"
  shows "sim (card_put_data r fs c s) (card_put_data r fs c t)"
proof -
  let ?s1 = "snd (get_access_token s)" and ?t1 = "snd (get_access_token t)"
  have 1: "fst (get_access_token s) = fst (get_access_token t)" "sim ?s1 ?t1"
    using sim_get_access_token [OF assms] by simp_all
  have h: "http ?s1 = http ?t1" "heap ?s1 = heap ?t1" using 1(2) by (simp_all add: sim_def)
  show ?thesis
    using 1 h sim_http_call(1) [OF 1(2)]
    by (auto simp add: card_put_data_def case_prod_beta Let_def sim_logf
          split: option.splits http_outcome.splits)
qed

lemma sim_card_ensure_inputing:
  assumes "sim s t"
  shows "sim (card_ensure_inputing r s) (card_ensure_inputing r t)"
proof -
  have h: "heap s = heap t" using assms by (simp add: sim_def)
  have p: "sim (card_put_data r ''2'' [] s) (card_put_data r ''2'' [] t)"
    using assms by (rule sim_card_put_data)
  then have h2: "heap (card_put_data r ''2'' [] s) = heap (card_put_data r ''2'' [] t)"
    by (simp add: sim_def)
  show ?thesis
    using assms h p h2 by (simp add: card_ensure_inputing_def Let_def sim_set_card)
qed

lemma sim_card_stream:
  assumes "sim s t"
  shows "sim (card_stream r c f s) (card_stream r c f t)"
proof -
  let ?s0 = "card_ensure_inputing r s" and ?t0 = "card_ensure_inputing r t"
  have 0: "sim ?s0 ?t0" using assms by (rule sim_card_ensure_inputing)
  let ?s1 = "snd (get_access_token ?s0)" and ?t1 = "snd (get_access_token ?t0)"
  have 1: "fst (get_access_token ?s0) = fst (get_access_token ?t0)" "sim ?s1 ?t1"
    using sim_get_access_token [OF 0] by simp_all
  have h: "http ?s1 = http ?t1" using 1(2) by (simp add: sim_def)
  let ?s2 = "snd (uuid4_hex ?s1)" and ?t2 = "snd (uuid4_hex ?t1)"
  have 2: "fst (uuid4_hex ?s1) = fst (uuid4_hex ?t1)" "sim ?s2 ?t2"
    using sim_uuid [OF 1(2)] by simp_all
  have h2: "heap ?s2 = heap ?t2" using 2(2) by (simp add: sim_def)
  show ?thesis
    using 1 h 2 h2 sim_http_call(1) [OF 2(2)]
    by (auto simp add: card_stream_def case_prod_beta Let_def sim_logf
          split: option.splits http_outcome.splits)
qed

lemma sim_card_finish:
  assumes "sim s t"
  shows "sim (card_finish r s) (card_finish r t)"
proof -
  have h: "heap s = heap t" using assms by (simp add: sim_def)
  show ?thesis
    using assms h by (simp add: card_finish_def Let_def sim_card_stream sim_card_put_data)
qed

lemma sim_send_text:
  assumes "sim s t"
  shows "sim (send_text msg s) (send_text msg t)"
proof -
  let ?s1 = "snd (get_access_token s)" and ?t1 = "snd (get_access_token t)"
  have 1: "fst (get_access_token s) = fst (get_access_token t)" "sim ?s1 ?t1"
    using sim_get_access_token [OF assms] by simp_all
  have h: "http ?s1 = http ?t1" "client_id ?s1 = client_id ?t1" using 1(2) by (simp_all add: sim_def)
  show ?thesis
    using assms 1 h sim_http_call(1) [OF 1(2)]
    by (auto simp add: send_text_def case_prod_beta Let_def sim_logf
          split: option.splits http_outcome.splits)
qed

lemma sim_card_create:
  assumes "sim s t"
  shows "fst (card_create msg s) = fst (card_create msg t)"
    and "sim (snd (card_create msg s)) (snd (card_create msg t))"
proof -
  obtain tok s1 where gs: "get_access_token s = (tok, s1)" by (cases "get_access_token s")
  obtain tok2 t1 where gt: "get_access_token t = (tok2, t1)" by (cases "get_access_token t")
  have tok2: "tok2 = tok" and 1: "sim s1 t1"
    using sim_get_access_token [OF assms] gs gt by simp_all
  have both: "fst (card_create msg s) = fst (card_create msg t) \<and>
              sim (snd (card_create msg s)) (snd (card_create msg t))"
  proof (cases tok)
    case None
    then show ?thesis using 1 by (simp add: card_create_def gs gt tok2)
  next
    case (Some tk)
    show ?thesis
    proof (cases "tk = [] \<or> \<not> http s1")
      case True
      moreover have "http t1 = http s1" using 1 by (simp add: sim_def)
      ultimately show ?thesis using 1 Some by (auto simp add: card_create_def gs gt tok2)
    next
      case False
      have ht: "http t1" "http s1" "tk \<noteq> []" using False 1 by (auto simp add: sim_def)
      obtain u s2 where us: "uuid4_hex s1 = (u, s2)" by (cases "uuid4_hex s1")
      obtain u2 t2 where ut: "uuid4_hex t1 = (u2, t2)" by (cases "uuid4_hex t1")
      have u2: "u2 = u" and 2: "sim s2 t2" using sim_uuid [OF 1] us ut by simp_all
      have cl: "client_id t2 = client_id s2" using 2 by (simp add: sim_def)
      define e where "e = create_request msg (client_id s2) tk (''card_'' @ u)"
      have ce: "is_create e" by (simp add: e_def create_request_def)
      obtain res s3 where hs: "http_call e s2 = (res, s3)" by (cases "http_call e s2")
      obtain res2 t3 where ht3: "http_call e t2 = (res2, t3)" by (cases "http_call e t2")
      have res2: "res2 = res" and 3: "sim s3 t3"
        using sim_http_call [OF 2, of e] ce hs ht3 by simp_all
      have cs: "card_create msg s =
        (case res of
           Raised \<Rightarrow> (None, logf Error ''Error creating DingTalk AI card: {}'' s3)
         | Status c \<Rightarrow>
             if c \<noteq> 200 then (None, logf Error ''DingTalk card create failed ({}): {}'' s3)
             else
               let s4 = logf Debug ''DingTalk AI card created: {}'' s3;
                   (now, s5) = time_time s4;
                   r = next_ref s5;
                   card = \<lparr>card_instance_id = ''card_'' @ u, accumulated_content = [],
                           inputing_started = False, created_at = now\<rparr>
               in (Some r, (set_card r card s5)\<lparr>next_ref := Suc r\<rparr>))"
        using ht Some hs [unfolded e_def]
        by (simp add: card_create_def gs us Let_def split: http_outcome.splits)
      have ct: "card_create msg t =
        (case res of
           Raised \<Rightarrow> (None, logf Error ''Error creating DingTalk AI card: {}'' t3)
         | Status c \<Rightarrow>
             if c \<noteq> 200 then (None, logf Error ''DingTalk card create failed ({}): {}'' t3)
             else
               let s4 = logf Debug ''DingTalk AI card created: {}'' t3;
                   (now, s5) = time_time s4;
                   r = next_ref s5;
                   card = \<lparr>card_instance_id = ''card_'' @ u, accumulated_content = [],
                           inputing_started = False, created_at = now\<rparr>
               in (Some r, (set_card r card s5)\<lparr>next_ref := Suc r\<rparr>))"
        using ht Some ht3 [unfolded e_def res2] cl
        by (simp add: card_create_def gt tok2 ut u2 Let_def split: http_outcome.splits)
      show ?thesis
        unfolding cs ct using 3
        by (auto simp add: sim_def effect_defs Let_def split: http_outcome.splits)
    qed
  qed
  from both show "fst (card_create msg s) = fst (card_create msg t)" by simp
  from both show "sim (snd (card_create msg s)) (snd (card_create msg t))" by simp
qed

lemma sim_cards_upd:
  "sim s t \<Longrightarrow> sim (s\<lparr>active_cards := f (active_cards s)\<rparr>) (t\<lparr>active_cards := f (active_cards t)\<rparr>)"
  by (simp add: sim_def)

lemma sim_evict_stale:
  assumes "sim s t"
  shows "fst (evict_stale key s) = fst (evict_stale key t)"
    and "sim (snd (evict_stale key s)) (snd (evict_stale key t))"
proof -
  have a: "active_cards s = active_cards t" using assms by (simp add: sim_def)
  have tm: "fst (time_time s) = fst (time_time t)" "sim (snd (time_time s)) (snd (time_time t))"
    using sim_time [OF assms] by simp_all
  have h: "heap (snd (time_time s)) = heap (snd (time_time t))" using tm(2) by (simp add: sim_def)
  have fin: "\<And>r. sim (card_finish r (logf Warning ''Evicting stale AI card for chat {}'' (snd (time_time s))))
                     (card_finish r (logf Warning ''Evicting stale AI card for chat {}'' (snd (time_time t))))"
    by (intro sim_card_finish sim_logf tm)
  show "fst (evict_stale key s) = fst (evict_stale key t)"
    using a tm h by (simp add: evict_stale_def case_prod_beta Let_def split: option.splits)
  show "sim (snd (evict_stale key s)) (snd (evict_stale key t))"
    using a tm h fin assms
    by (simp add: evict_stale_def case_prod_beta Let_def sim_cards_upd split: option.splits)
qed

lemma send_ai_card_progress_card:
  assumes "truthy (map_of (metadata msg) ''_progress'')"
    and "evict_stale (chat_id msg) s = (Some r, s1)"
  shows "send_ai_card msg s =
           card_stream r (accumulated_content (heap s1 r) @ content msg @ [CHR 0x0A, CHR 0x0A]) False
             (set_card r ((heap s1 r)\<lparr>accumulated_content :=
                 accumulated_content (heap s1 r) @ content msg @ [CHR 0x0A, CHR 0x0A]\<rparr>) s1)"
  using assms by (simp add: send_ai_card_def Let_def set_card_def)

lemma send_ai_card_progress_new:
  assumes "truthy (map_of (metadata msg) ''_progress'')"
    and "evict_stale (chat_id msg) s = (None, s1)"
    and "card_create msg s1 = (Some r, s2)"
    and "s3 = s2\<lparr>active_cards := AList.update (chat_id msg) r (active_cards s2)\<rparr>"
  shows "send_ai_card msg s =
           card_stream r (accumulated_content (heap s3 r) @ content msg @ [CHR 0x0A, CHR 0x0A]) False
             (set_card r ((heap s3 r)\<lparr>accumulated_content :=
                 accumulated_content (heap s3 r) @ content msg @ [CHR 0x0A, CHR 0x0A]\<rparr>) s3)"
  using assms by (simp add: send_ai_card_def Let_def set_card_def)

lemma send_ai_card_fallback:
  assumes "evict_stale (chat_id msg) s = (None, s1)"
    and "card_create msg s1 = (None, s2)"
  shows "send_ai_card msg s = send_text msg s2"
  using assms by (simp add: send_ai_card_def Let_def)

lemma send_ai_card_final_card:
  assumes "\<not> truthy (map_of (metadata msg) ''_progress'')"
    and "evict_stale (chat_id msg) s = (Some r, s1)"
    and "s3 = card_finish r (set_card r ((heap s1 r)\<lparr>accumulated_content :=
                 accumulated_content (heap s1 r) @ content msg\<rparr>) s1)"
  shows "send_ai_card msg s = s3\<lparr>active_cards := AList.delete (chat_id msg) (active_cards s3)\<rparr>"
  using assms by (simp add: send_ai_card_def Let_def)

lemma send_ai_card_final_new:
  assumes "\<not> truthy (map_of (metadata msg) ''_progress'')"
    and "evict_stale (chat_id msg) s = (None, s1)"
    and "card_create msg s1 = (Some r, s2)"
  shows "send_ai_card msg s =
           card_finish r (set_card r ((heap s2 r)\<lparr>accumulated_content := content msg\<rparr>) s2)"
  using assms by (simp add: send_ai_card_def Let_def)

lemma sim_send_ai_card:
  assumes "sim s t"
  shows "sim (send_ai_card msg s) (send_ai_card msg t)"
proof -
  obtain card s1 where es: "evict_stale (chat_id msg) s = (card, s1)"
    by (cases "evict_stale (chat_id msg) s")
  obtain card2 t1 where et: "evict_stale (chat_id msg) t = (card2, t1)"
    by (cases "evict_stale (chat_id msg) t")
  have card2: "card2 = card" and 1: "sim s1 t1"
    using sim_evict_stale [OF assms, of "chat_id msg"] es et by simp_all
  have h1: "heap t1 = heap s1" using 1 by (simp add: sim_def)
  show ?thesis
  proof (cases card)
    case (Some r)
    show ?thesis
    proof (cases "truthy (map_of (metadata msg) ''_progress'')")
      case True
      show ?thesis
        unfolding send_ai_card_progress_card [OF True es [unfolded Some]]
          send_ai_card_progress_card [OF True et [unfolded card2 Some]] h1
        by (intro sim_card_stream sim_set_card 1)
    next
      case False
      show ?thesis
        unfolding send_ai_card_final_card [OF False es [unfolded Some] refl]
          send_ai_card_final_card [OF False et [unfolded card2 Some] refl] h1
        by (intro sim_cards_upd sim_card_finish sim_set_card 1)
    qed
  next
    case None
    obtain c s2 where cs: "card_create msg s1 = (c, s2)" by (cases "card_create msg s1")
    obtain c2 t2 where ct: "card_create msg t1 = (c2, t2)" by (cases "card_create msg t1")
    have c2: "c2 = c" and 2: "sim s2 t2"
      using sim_card_create [OF 1, of msg] cs ct by simp_all
    have h2: "heap t2 = heap s2" using 2 by (simp add: sim_def)
    show ?thesis
    proof (cases c)
      case None2: None
      show ?thesis
        unfolding send_ai_card_fallback [OF es [unfolded None] cs [unfolded None2]]
          send_ai_card_fallback [OF et [unfolded card2 None] ct [unfolded c2 None2]]
        by (intro sim_send_text 2)
    next
      case (Some r)
      show ?thesis
      proof (cases "truthy (map_of (metadata msg) ''_progress'')")
        case True
        have 3: "sim (s2\<lparr>active_cards := AList.update (chat_id msg) r (active_cards s2)\<rparr>)
                     (t2\<lparr>active_cards := AList.update (chat_id msg) r (active_cards t2)\<rparr>)"
          using 2 by (rule sim_cards_upd)
        show ?thesis
          unfolding send_ai_card_progress_new [OF True es [unfolded None] cs [unfolded Some] refl]
            send_ai_card_progress_new [OF True et [unfolded card2 None] ct [unfolded c2 Some] refl]
          using h2 by (auto intro!: sim_card_stream sim_set_card 3)
      next
        case False
        show ?thesis
          unfolding send_ai_card_final_new [OF False es [unfolded None] cs [unfolded Some]]
            send_ai_card_final_new [OF False et [unfolded card2 None] ct [unfolded c2 Some]] h2
          by (intro sim_card_finish sim_set_card 2)
      qed
    qed
  qed
qed

subsection \<open>The inbound path\<close>

lemma delete_lookup: "map_of (AList.delete k al) k = None"
  by (simp add: AList.delete_conv')

lemma on_message_state:
  assumes "key = (case chat of None \<Rightarrow> sender_id | Some c \<Rightarrow> if c = [] then sender_id else c)"
    and "map_of (active_cards s) key = Some r"
    and "s1 = card_finish r (logf Info ''Finishing stale AI card for {} (new message received)''
                 (s\<lparr>active_cards := AList.delete key (active_cards s)\<rparr>))"
    and "md1 = (case md of
                  None \<Rightarrow> [(''sender_name'', PyStr sender_name), (''platform'', PyStr ''dingtalk'')]
                | Some m \<Rightarrow> if m = [] then [(''sender_name'', PyStr sender_name), (''platform'', PyStr ''dingtalk'')] else m)"
  shows "trace (on_message cont sender_id sender_name chat md s) =
           trace s1 @ [HandleMessage sender_id key cont md1]"
    and "active_cards (on_message cont sender_id sender_name chat md s) = active_cards s1"
    and "active_cards s1 = AList.delete key (active_cards s)"
  using assms
  by (simp_all add: on_message_def Let_def logf_def emit_def card_finish_frame)

subsection \<open>Creation, eviction and the text path\<close>

lemma send_text_frame:
  "heap (send_text msg s) = heap s"
  "active_cards (send_text msg s) = active_cards s"
  "http (send_text msg s) = http s"
  "uuid_i (send_text msg s) = uuid_i s"
  "uuids (send_text msg s) = uuids s"
  "clock (send_text msg s) = clock s"
  "next_ref (send_text msg s) = next_ref s"
  "background_tasks (send_text msg s) = background_tasks s"
  by (simp_all add: send_text_def get_access_token_frame effect_defs Let_def case_prod_beta
        split: option.splits http_outcome.splits)

lemma card_create_frame:
  "active_cards (snd (card_create msg s)) = active_cards s"
  "http (snd (card_create msg s)) = http s"
  "uuids (snd (card_create msg s)) = uuids s"
  "clock (snd (card_create msg s)) = clock s"
  "background_tasks (snd (card_create msg s)) = background_tasks s"
  by (simp_all add: card_create_def get_access_token_frame effect_defs Let_def case_prod_beta
        split: option.splits http_outcome.splits)

lemma card_create_None_iff:
  "fst (card_create msg s) = None \<longleftrightarrow>
     (case fst (get_access_token s) of
        None \<Rightarrow> True
      | Some t \<Rightarrow>
          t = [] \<or> \<not> http s \<or>
          http_reply s (length (trace (snd (get_access_token s))))
            (create_request msg (client_id s) t (''card_'' @ uuids s (uuid_i s))) \<noteq> Status 200)"
  by (auto simp add: card_create_def get_access_token_frame effect_defs Let_def case_prod_beta
        split: option.splits http_outcome.splits)

lemma card_create_Some:
  assumes "card_create msg s = (Some r, s')"
  shows "r = next_ref s" and "next_ref s' = Suc (next_ref s)"
    and "\<forall>q. q \<noteq> r \<longrightarrow> heap s' q = heap s q"
    and "accumulated_content (heap s' r) = []"
  using assms
  by (auto simp add: card_create_def get_access_token_frame effect_defs Let_def case_prod_beta
        split: option.splits http_outcome.splits if_splits)

lemma evict_stale_None:
  "evict_stale key s = (None, s1) \<Longrightarrow> map_of (active_cards s1) key = None"
  by (auto simp add: evict_stale_def Let_def case_prod_beta delete_lookup
        split: option.splits if_splits)

lemma evict_stale_absent:
  "map_of (active_cards s) key = None \<Longrightarrow> evict_stale key s = (None, s)"
  by (simp add: evict_stale_def)

lemma evict_stale_stale:
  assumes "map_of (active_cards s) key = Some r"
    and "clock s (ticks s) - created_at (heap s r) > 600"
    and "s3 = card_finish r (logf Warning ''Evicting stale AI card for chat {}'' (s\<lparr>ticks := Suc (ticks s)\<rparr>))"
  shows "evict_stale key s = (None, s3\<lparr>active_cards := AList.delete key (active_cards s)\<rparr>)"
  using assms
  by (simp add: evict_stale_def time_time_def CARD_TTL_SECONDS_def Let_def card_finish_frame logf_def)

lemma evict_stale_fresh:
  assumes "map_of (active_cards s) key = Some r"
    and "clock s (ticks s) - created_at (heap s r) \<le> 600"
  shows "evict_stale key s = (Some r, s\<lparr>ticks := Suc (ticks s)\<rparr>)"
  using assms
  by (simp add: evict_stale_def time_time_def CARD_TTL_SECONDS_def Let_def)

lemma batch_card_calls: "filter is_batch_send (card_calls evs) = filter is_batch_send evs"
  by (induction evs) (auto elim: is_token_request.elims)

lemma get_access_token_sends:
  "filter is_batch_send (trace (snd (get_access_token s))) = filter is_batch_send (trace s)"
  using get_access_token_frame(16) [of s] batch_card_calls by metis

lemma card_finish_sends:
  "filter is_batch_send (trace (card_finish r s)) = filter is_batch_send (trace s)"
proof -
  obtain ts1 ts2 ts3 where *: "card_calls (trace (card_finish r s)) =
       card_calls (trace s)
       @ map (\<lambda>t. PutCardData t (card_instance_id (heap s r)) ''2'' []) ts1
       @ map (\<lambda>t. CardStreaming t (card_instance_id (heap s r)) (uuids s (uuid_i s))
                (if accumulated_content (heap s r) = [] then ''...''
                 else accumulated_content (heap s r)) True) ts2
       @ map (\<lambda>t. PutCardData t (card_instance_id (heap s r)) ''3''
                (if accumulated_content (heap s r) = [] then ''...''
                 else accumulated_content (heap s r))) ts3"
    using card_finish_calls [of r s] by blast
  have "filter is_batch_send (trace (card_finish r s)) = filter is_batch_send (card_calls (trace (card_finish r s)))"
    by (simp add: batch_card_calls)
  also have "\<dots> = filter is_batch_send (trace s)"
    unfolding * by (simp add: batch_card_calls filter_empty_conv)
  finally show ?thesis .
qed

lemma evict_stale_sends:
  "filter is_batch_send (trace (snd (evict_stale key s))) = filter is_batch_send (trace s)"
  by (simp add: evict_stale_def Let_def case_prod_beta card_finish_sends effect_defs
        split: option.splits)

lemma card_create_sends:
  "filter is_batch_send (trace (snd (card_create msg s))) = filter is_batch_send (trace s)"
  by (simp add: card_create_def Let_def case_prod_beta get_access_token_sends effect_defs
        create_request_def split: option.splits http_outcome.splits)

subsection \<open>Unfolding on concrete worlds\<close>

lemmas op_defs = card_stream_def card_ensure_inputing_def card_put_data_def get_access_token_def
  refresh_access_token_def card_finish_def effect_defs

lemmas world_defs = world0_def card0_def world_down_def world_started_def world_no_http_def
  world_two_def world_typing_def

lemmas run_defs = on_message_run_def on_message_def handle_message_def probe_message_def
  card_finish_suspended_def card_stream_suspended_def card_ensure_inputing_suspended_def
  card_put_data_suspended_def send_ai_card_def evict_stale_def card_create_def
  create_request_def build_open_space_id_def get_default_def

subsection \<open>The trace only grows\<close>

lemma prefix_emit: "prefix (trace s) (trace (emit e s))"
  by (simp add: emit_def)

lemma refresh_prefix: "prefix (trace s) (trace (snd (refresh_access_token s)))"
  by (simp add: refresh_access_token_def effect_defs Let_def
        split: token_outcome.splits expire_in.splits)

lemma get_access_token_prefix: "prefix (trace s) (trace (snd (get_access_token s)))"
  using refresh_prefix [of s] refresh_prefix [of "s\<lparr>ticks := Suc (ticks s)\<rparr>"]
  by (simp add: get_access_token_def time_time_def Let_def split: option.splits)

lemma card_put_data_prefix: "prefix (trace s) (trace (card_put_data r fs c s))"
proof -
  have "prefix (trace (snd (get_access_token s))) (trace (card_put_data r fs c s))"
    by (simp add: card_put_data_def effect_defs Let_def case_prod_beta
          split: option.splits http_outcome.splits)
  with get_access_token_prefix [of s] show ?thesis by (rule prefix_order.trans)
qed

lemma card_ensure_inputing_prefix: "prefix (trace s) (trace (card_ensure_inputing r s))"
  using card_put_data_prefix [of s r "''2''" "[]"]
  by (simp add: card_ensure_inputing_def set_card_def Let_def)

lemma card_stream_prefix: "prefix (trace s) (trace (card_stream r c f s))"
proof -
  let ?s0 = "card_ensure_inputing r s"
  have "prefix (trace (snd (get_access_token ?s0))) (trace (card_stream r c f s))"
    by (simp add: card_stream_def effect_defs Let_def case_prod_beta
          split: option.splits http_outcome.splits)
  with get_access_token_prefix [of ?s0] have "prefix (trace ?s0) (trace (card_stream r c f s))"
    by (rule prefix_order.trans)
  with card_ensure_inputing_prefix [of s r] show ?thesis by (rule prefix_order.trans)
qed

lemma card_finish_prefix: "prefix (trace s) (trace (card_finish r s))"
  unfolding card_finish_def Let_def
  by (rule prefix_order.trans [OF card_stream_prefix card_put_data_prefix])

lemma send_text_prefix: "prefix (trace s) (trace (send_text msg s))"
proof -
  have "prefix (trace (snd (get_access_token s))) (trace (send_text msg s)) \<or>
        trace (send_text msg s) = trace s"
    by (simp add: send_text_def effect_defs Let_def case_prod_beta
          split: option.splits http_outcome.splits)
  with get_access_token_prefix [of s] show ?thesis
    by (auto intro: prefix_order.trans)
qed

lemma card_create_prefix: "prefix (trace s) (trace (snd (card_create msg s)))"
proof -
  have "prefix (trace (snd (get_access_token s))) (trace (snd (card_create msg s)))"
    by (simp add: card_create_def effect_defs Let_def case_prod_beta
          split: option.splits http_outcome.splits)
  with get_access_token_prefix [of s] show ?thesis by (rule prefix_order.trans)
qed

lemma evict_stale_prefix: "prefix (trace s) (trace (snd (evict_stale key s)))"
proof (cases "map_of (active_cards s) key")
  case None
  then show ?thesis by (simp add: evict_stale_def)
next
  case (Some r)
  have "prefix (trace s) (trace (card_finish r (logf Warning ''Evicting stale AI card for chat {}'' (s\<lparr>ticks := Suc (ticks s)\<rparr>))))"
    using card_finish_prefix [of "logf Warning ''Evicting stale AI card for chat {}'' (s\<lparr>ticks := Suc (ticks s)\<rparr>)" r]
    by (simp add: logf_def)
  with Some show ?thesis
    by (simp add: evict_stale_def time_time_def Let_def)
qed

lemma send_ai_card_after_eviction:
  assumes "evict_stale (chat_id msg) s = (cr, s1)"
  shows "prefix (trace s1) (trace (send_ai_card msg s))"
proof (cases cr)
  case (Some r)
  show ?thesis
  proof (cases "truthy (map_of (metadata msg) ''_progress'')")
    case True
    show ?thesis
      unfolding send_ai_card_progress_card [OF True assms [unfolded Some]]
      using card_stream_prefix [of "set_card r ((heap s1 r)\<lparr>accumulated_content :=
                 accumulated_content (heap s1 r) @ content msg @ [CHR 0x0A, CHR 0x0A]\<rparr>) s1"]
      by (simp add: set_card_def)
  next
    case False
    show ?thesis
      unfolding send_ai_card_final_card [OF False assms [unfolded Some] refl]
      using card_finish_prefix [of "set_card r ((heap s1 r)\<lparr>accumulated_content :=
                 accumulated_content (heap s1 r) @ content msg\<rparr>) s1"]
      by (simp add: set_card_def)
  qed
next
  case None
  obtain c s2 where cs: "card_create msg s1 = (c, s2)" by (cases "card_create msg s1")
  have p2: "prefix (trace s1) (trace s2)" using card_create_prefix [of s1 msg] cs by simp
  show ?thesis
  proof (cases c)
    case None2: None
    show ?thesis
      unfolding send_ai_card_fallback [OF assms [unfolded None] cs [unfolded None2]]
      using p2 send_text_prefix [of s2 msg] by (rule prefix_order.trans)
  next
    case (Some r)
    show ?thesis
    proof (cases "truthy (map_of (metadata msg) ''_progress'')")
      case True
      have "prefix (trace s2) (trace (send_ai_card msg s))"
        unfolding send_ai_card_progress_new [OF True assms [unfolded None] cs [unfolded Some] refl]
        using card_stream_prefix [of "set_card r ((heap s2 r)\<lparr>accumulated_content :=
                 accumulated_content (heap s2 r) @ content msg @ [CHR 0x0A, CHR 0x0A]\<rparr>)
                 (s2\<lparr>active_cards := AList.update (chat_id msg) r (active_cards s2)\<rparr>)"]
        by (simp add: set_card_def)
      with p2 show ?thesis by (rule prefix_order.trans)
    next
      case False
      have "prefix (trace s2) (trace (send_ai_card msg s))"
        unfolding send_ai_card_final_new [OF False assms [unfolded None] cs [unfolded Some]]
        using card_finish_prefix [of "set_card r ((heap s2 r)\<lparr>accumulated_content := content msg\<rparr>) s2"]
        by (simp add: set_card_def)
      with p2 show ?thesis by (rule prefix_order.trans)
    qed
  qed
qed

lemma send_ai_card_no_card_heap:
  assumes "evict_stale (chat_id msg) s = (None, s1)" and "q < next_ref s1"
  shows "heap (send_ai_card msg s) q = heap s1 q"
    and "map_of (active_cards (send_ai_card msg s)) (chat_id msg) \<noteq> Some q"
proof -
  obtain c s2 where cs: "card_create msg s1 = (c, s2)" by (cases "card_create msg s1")
  have none: "map_of (active_cards s1) (chat_id msg) = None"
    using assms(1) by (rule evict_stale_None)
  have ac2: "active_cards s2 = active_cards s1" using card_create_frame(1) [of msg s1] cs by simp
  have both: "heap (send_ai_card msg s) q = heap s1 q \<and>
              map_of (active_cards (send_ai_card msg s)) (chat_id msg) \<noteq> Some q"
  proof (cases c)
    case None
    have h2: "heap s2 = heap s1" using cs None
      by (auto simp add: card_create_def get_access_token_frame effect_defs Let_def case_prod_beta
            split: option.splits http_outcome.splits if_splits)
    show ?thesis
      unfolding send_ai_card_fallback [OF assms(1) cs [unfolded None]]
      using none by (simp add: send_text_frame h2 ac2)
  next
    case (Some r)
    have r: "r = next_ref s1" "\<forall>q. q \<noteq> r \<longrightarrow> heap s2 q = heap s1 q"
      using card_create_Some [OF cs [unfolded Some]] by simp_all
    then have qr: "q \<noteq> r" "heap s2 q = heap s1 q" using assms(2) by auto
    show ?thesis
    proof (cases "truthy (map_of (metadata msg) ''_progress'')")
      case True
      show ?thesis
        unfolding send_ai_card_progress_new [OF True assms(1) cs [unfolded Some] refl]
        using qr by (simp add: card_stream_frame set_card_def update_conv')
    next
      case False
      show ?thesis
        unfolding send_ai_card_final_new [OF False assms(1) cs [unfolded Some]]
        using qr none by (simp add: card_finish_frame set_card_def ac2)
    qed
  qed
  from both show "heap (send_ai_card msg s) q = heap s1 q" by simp
  from both show "map_of (active_cards (send_ai_card msg s)) (chat_id msg) \<noteq> Some q" by simp
qed

subsection \<open>The dispatcher with a valid cached token\<close>

lemma card_create_ok:
  assumes "token_ok s t"
    and "http_reply s (length (trace s))
           (create_request msg (client_id s) t (''card_'' @ uuids s (uuid_i s))) = Status 200"
  shows "card_create msg s =
     (Some (next_ref s),
      s\<lparr>ticks := Suc (Suc (ticks s)), uuid_i := Suc (uuid_i s),
        trace := trace s @ [create_request msg (client_id s) t (''card_'' @ uuids s (uuid_i s))],
        logs := logs s @ [(Debug, ''DingTalk AI card created: {}'')],
        heap := (heap s)(next_ref s := \<lparr>card_instance_id = ''card_'' @ uuids s (uuid_i s),
                  accumulated_content = [], inputing_started = False,
                  created_at = clock s (Suc (ticks s))\<rparr>),
        next_ref := Suc (next_ref s)\<rparr>)"
proof -
  have g: "get_access_token s = (Some t, s\<lparr>ticks := Suc (ticks s)\<rparr>)"
    using assms(1) by (rule get_access_token_ok)
  have h: "http s" "t \<noteq> []" using assms(1) by (simp_all add: token_ok_def)
  show ?thesis
    using h assms(2) by (simp add: card_create_def g effect_defs Let_def)
qed

lemma send_progress_open:
  assumes "truthy (map_of (metadata msg) ''_progress'')"
    and "map_of (active_cards s) (chat_id msg) = Some r"
    and "clock s (ticks s) - created_at (heap s r) \<le> 600"
  shows "send_ai_card msg s =
           card_stream r (accumulated_content (heap s r) @ content msg @ [CHR 0x0A, CHR 0x0A]) False
             (set_card r ((heap s r)\<lparr>accumulated_content :=
                 accumulated_content (heap s r) @ content msg @ [CHR 0x0A, CHR 0x0A]\<rparr>)
                (s\<lparr>ticks := Suc (ticks s)\<rparr>))"
  using send_ai_card_progress_card [OF assms(1) evict_stale_fresh [OF assms(2,3)]] by simp

lemma send_final_open:
  assumes "\<not> truthy (map_of (metadata msg) ''_progress'')"
    and "map_of (active_cards s) (chat_id msg) = Some r"
    and "clock s (ticks s) - created_at (heap s r) \<le> 600"
    and "s3 = card_finish r (set_card r ((heap s r)\<lparr>accumulated_content :=
                 accumulated_content (heap s r) @ content msg\<rparr>) (s\<lparr>ticks := Suc (ticks s)\<rparr>))"
  shows "send_ai_card msg s = s3\<lparr>active_cards := AList.delete (chat_id msg) (active_cards s3)\<rparr>"
  using send_ai_card_final_card [OF assms(1) evict_stale_fresh [OF assms(2,3)], of s3] assms(4)
  by simp

lemma send_progress_open_ok:
  assumes "truthy (map_of (metadata msg) ''_progress'')"
    and "map_of (active_cards s) (chat_id msg) = Some r"
    and "clock s (ticks s) - created_at (heap s r) \<le> 600"
  shows "heap (send_ai_card msg s) = (heap s)(r := (heap s r)\<lparr>accumulated_content :=
            accumulated_content (heap s r) @ content msg @ [CHR 0x0A, CHR 0x0A],
            inputing_started := True\<rparr>)"
    and "active_cards (send_ai_card msg s) = active_cards s"
    and "clock (send_ai_card msg s) = clock s"
    and "uuids (send_ai_card msg s) = uuids s"
    and "token_ok s t \<Longrightarrow> token_ok (send_ai_card msg s) t"
    and "token_ok s t \<Longrightarrow> uuid_i (send_ai_card msg s) = Suc (uuid_i s)"
    and "token_ok s t \<Longrightarrow> trace (send_ai_card msg s) =
           trace s
           @ (if inputing_started (heap s r) then []
              else [PutCardData t (card_instance_id (heap s r)) ''2'' []])
           @ [CardStreaming t (card_instance_id (heap s r)) (uuids s (uuid_i s))
                (accumulated_content (heap s r) @ content msg @ [CHR 0x0A, CHR 0x0A]) False]"
proof -
  let ?c = "accumulated_content (heap s r) @ content msg @ [CHR 0x0A, CHR 0x0A]"
  let ?s1 = "set_card r ((heap s r)\<lparr>accumulated_content := ?c\<rparr>) (s\<lparr>ticks := Suc (ticks s)\<rparr>)"
  have eq: "send_ai_card msg s = card_stream r ?c False ?s1"
    using assms by (rule send_progress_open)
  have ok1: "token_ok ?s1 t" if "token_ok s t"
    using that by (simp add: token_ok_def set_card_def)
  show "heap (send_ai_card msg s) = (heap s)(r := (heap s r)\<lparr>accumulated_content := ?c,
            inputing_started := True\<rparr>)"
    by (simp add: eq card_stream_frame set_card_def)
  show "active_cards (send_ai_card msg s) = active_cards s"
    "clock (send_ai_card msg s) = clock s" "uuids (send_ai_card msg s) = uuids s"
    by (simp_all add: eq card_stream_frame set_card_def)
  show "token_ok (send_ai_card msg s) t" if "token_ok s t"
    unfolding eq using ok1 [OF that] by (rule card_stream_ok)
  show "uuid_i (send_ai_card msg s) = Suc (uuid_i s)" if "token_ok s t"
    unfolding eq using card_stream_ok(3) [OF ok1 [OF that]] by (simp add: set_card_def)
  show "trace (send_ai_card msg s) =
           trace s
           @ (if inputing_started (heap s r) then []
              else [PutCardData t (card_instance_id (heap s r)) ''2'' []])
           @ [CardStreaming t (card_instance_id (heap s r)) (uuids s (uuid_i s)) ?c False]"
    if "token_ok s t"
    unfolding eq using card_stream_ok(1) [OF ok1 [OF that], of r ?c False]
    by (simp add: set_card_def)
qed

lemma send_final_open_ok:
  assumes "\<not> truthy (map_of (metadata msg) ''_progress'')"
    and "map_of (active_cards s) (chat_id msg) = Some r"
    and "clock s (ticks s) - created_at (heap s r) \<le> 600"
  shows "heap (send_ai_card msg s) = (heap s)(r := (heap s r)\<lparr>accumulated_content :=
            accumulated_content (heap s r) @ content msg, inputing_started := True\<rparr>)"
    and "map_of (active_cards (send_ai_card msg s)) (chat_id msg) = None"
    and "token_ok s t \<Longrightarrow> trace (send_ai_card msg s) =
           trace s
           @ (if inputing_started (heap s r) then []
              else [PutCardData t (card_instance_id (heap s r)) ''2'' []])
           @ [CardStreaming t (card_instance_id (heap s r)) (uuids s (uuid_i s))
                (if accumulated_content (heap s r) @ content msg = [] then ''...''
                 else accumulated_content (heap s r) @ content msg) True,
              PutCardData t (card_instance_id (heap s r)) ''3''
                (if accumulated_content (heap s r) @ content msg = [] then ''...''
                 else accumulated_content (heap s r) @ content msg)]"
proof -
  let ?c = "accumulated_content (heap s r) @ content msg"
  let ?s1 = "set_card r ((heap s r)\<lparr>accumulated_content := ?c\<rparr>) (s\<lparr>ticks := Suc (ticks s)\<rparr>)"
  let ?s3 = "card_finish r ?s1"
  have eq: "send_ai_card msg s = ?s3\<lparr>active_cards := AList.delete (chat_id msg) (active_cards ?s3)\<rparr>"
    using assms refl by (rule send_final_open)
  have ok1: "token_ok ?s1 t" if "token_ok s t"
    using that by (simp add: token_ok_def set_card_def)
  show "heap (send_ai_card msg s) = (heap s)(r := (heap s r)\<lparr>accumulated_content := ?c,
            inputing_started := True\<rparr>)"
    by (simp add: eq card_finish_frame set_card_def)
  show "map_of (active_cards (send_ai_card msg s)) (chat_id msg) = None"
    by (simp add: eq delete_lookup)
  show "trace (send_ai_card msg s) =
           trace s
           @ (if inputing_started (heap s r) then []
              else [PutCardData t (card_instance_id (heap s r)) ''2'' []])
           @ [CardStreaming t (card_instance_id (heap s r)) (uuids s (uuid_i s))
                (if ?c = [] then ''...'' else ?c) True,
              PutCardData t (card_instance_id (heap s r)) ''3'' (if ?c = [] then ''...'' else ?c)]"
    if "token_ok s t"
    using card_finish_ok(1) [OF ok1 [OF that], of r]
    by (simp add: eq set_card_def)
qed

lemma send_progress_new_ok:
  assumes "truthy (map_of (metadata msg) ''_progress'')"
    and "map_of (active_cards s) (chat_id msg) = None"
    and "token_ok s t"
    and "http_reply s (length (trace s))
           (create_request msg (client_id s) t (''card_'' @ uuids s (uuid_i s))) = Status 200"
  shows "heap (send_ai_card msg s) (next_ref s) =
           \<lparr>card_instance_id = ''card_'' @ uuids s (uuid_i s),
            accumulated_content = content msg @ [CHR 0x0A, CHR 0x0A],
            inputing_started = True, created_at = clock s (Suc (ticks s))\<rparr>"
    and "map_of (active_cards (send_ai_card msg s)) (chat_id msg) = Some (next_ref s)"
    and "clock (send_ai_card msg s) = clock s"
    and "uuids (send_ai_card msg s) = uuids s"
    and "token_ok (send_ai_card msg s) t"
    and "uuid_i (send_ai_card msg s) = Suc (Suc (uuid_i s))"
    and "trace (send_ai_card msg s) =
           trace s
           @ [create_request msg (client_id s) t (''card_'' @ uuids s (uuid_i s)),
              PutCardData t (''card_'' @ uuids s (uuid_i s)) ''2'' [],
              CardStreaming t (''card_'' @ uuids s (uuid_i s)) (uuids s (Suc (uuid_i s)))
                (content msg @ [CHR 0x0A, CHR 0x0A]) False]"
proof -
  let ?r = "next_ref s"
  let ?cid = "''card_'' @ uuids s (uuid_i s)"
  let ?s2 = "s\<lparr>ticks := Suc (Suc (ticks s)), uuid_i := Suc (uuid_i s),
        trace := trace s @ [create_request msg (client_id s) t ?cid],
        logs := logs s @ [(Debug, ''DingTalk AI card created: {}'')],
        heap := (heap s)(next_ref s := \<lparr>card_instance_id = ?cid,
                  accumulated_content = [], inputing_started = False,
                  created_at = clock s (Suc (ticks s))\<rparr>),
        next_ref := Suc (next_ref s)\<rparr>"
  let ?s3 = "?s2\<lparr>active_cards := AList.update (chat_id msg) ?r (active_cards ?s2)\<rparr>"
  let ?c = "content msg @ [CHR 0x0A, CHR 0x0A]"
  let ?s4 = "set_card ?r ((heap ?s3 ?r)\<lparr>accumulated_content := accumulated_content (heap ?s3 ?r) @ ?c\<rparr>) ?s3"
  have cc: "card_create msg s = (Some ?r, ?s2)"
    using assms(3,4) by (rule card_create_ok)
  have eq: "send_ai_card msg s = card_stream ?r (accumulated_content (heap ?s3 ?r) @ ?c) False ?s4"
    using send_ai_card_progress_new [OF assms(1) evict_stale_absent [OF assms(2)] cc refl] .
  have acc: "accumulated_content (heap ?s3 ?r) @ ?c = ?c" by simp
  have ok4: "token_ok ?s4 t" using assms(3) by (simp add: token_ok_def set_card_def)
  have h4: "heap ?s4 ?r = \<lparr>card_instance_id = ?cid, accumulated_content = ?c,
              inputing_started = False, created_at = clock s (Suc (ticks s))\<rparr>"
    by (simp add: set_card_def)
  show "heap (send_ai_card msg s) ?r =
           \<lparr>card_instance_id = ?cid, accumulated_content = ?c,
            inputing_started = True, created_at = clock s (Suc (ticks s))\<rparr>"
    unfolding eq by (simp add: card_stream_frame set_card_def)
  show "map_of (active_cards (send_ai_card msg s)) (chat_id msg) = Some ?r"
    unfolding eq by (simp add: card_stream_frame set_card_def update_conv')
  show "clock (send_ai_card msg s) = clock s" "uuids (send_ai_card msg s) = uuids s"
    unfolding eq by (simp_all add: card_stream_frame set_card_def)
  show "token_ok (send_ai_card msg s) t"
    unfolding eq using ok4 by (rule card_stream_ok)
  show "uuid_i (send_ai_card msg s) = Suc (Suc (uuid_i s))"
    unfolding eq using card_stream_ok(3) [OF ok4] by (simp add: set_card_def)
  show "trace (send_ai_card msg s) =
           trace s
           @ [create_request msg (client_id s) t ?cid,
              PutCardData t ?cid ''2'' [],
              CardStreaming t ?cid (uuids s (Suc (uuid_i s))) ?c False]"
    unfolding eq acc using card_stream_ok(1) [OF ok4, of ?r ?c False] h4
    by (simp add: set_card_def)
qed

subsection \<open>References in the dict\<close>

lemma refs_ok_lookup: "refs_ok s \<Longrightarrow> map_of (active_cards s) k = Some r \<Longrightarrow> r < next_ref s"
  by (auto simp add: refs_ok_def dest: map_of_SomeD)

lemma set_delete_subset: "set (AList.delete k al) \<subseteq> set al"
  by (auto simp add: AList.delete_eq)

lemma set_update_subset: "set (AList.update k v al) \<subseteq> insert (k, v) (set al)"
  by (induction al) auto

lemma refs_ok_delete:
  "refs_ok s \<Longrightarrow> next_ref s' = next_ref s \<Longrightarrow> active_cards s' = AList.delete k (active_cards s)
   \<Longrightarrow> refs_ok s'"
  using set_delete_subset [of k "active_cards s"] by (auto simp add: refs_ok_def)

lemma refs_ok_same:
  "refs_ok s \<Longrightarrow> next_ref s \<le> next_ref s' \<Longrightarrow> active_cards s' = active_cards s \<Longrightarrow> refs_ok s'"
  by (fastforce simp add: refs_ok_def)

lemma evict_stale_refs:
  assumes "refs_ok s" and "evict_stale key s = (cr, s1)"
  shows "refs_ok s1" and "next_ref s1 = next_ref s"
proof -
  have "refs_ok s1 \<and> next_ref s1 = next_ref s"
  proof (cases "map_of (active_cards s) key")
    case None
    then show ?thesis using assms by (simp add: evict_stale_def)
  next
    case (Some r)
    show ?thesis
    proof (cases "clock s (ticks s) - created_at (heap s r) > 600")
      case True
      have "evict_stale key s =
        (None, (card_finish r (logf Warning ''Evicting stale AI card for chat {}'' (s\<lparr>ticks := Suc (ticks s)\<rparr>)))
                 \<lparr>active_cards := AList.delete key (active_cards s)\<rparr>)"
        using Some True refl by (rule evict_stale_stale)
      with assms(2) have s1: "s1 = (card_finish r (logf Warning ''Evicting stale AI card for chat {}'' (s\<lparr>ticks := Suc (ticks s)\<rparr>)))
                 \<lparr>active_cards := AList.delete key (active_cards s)\<rparr>"
        by simp
      have n: "next_ref s1 = next_ref s" by (simp add: s1 card_finish_frame logf_def)
      have a: "active_cards s1 = AList.delete key (active_cards s)" by (simp add: s1)
      show ?thesis using refs_ok_delete [OF assms(1) n a] n by simp
    next
      case False
      then have "evict_stale key s = (Some r, s\<lparr>ticks := Suc (ticks s)\<rparr>)"
        using Some by (intro evict_stale_fresh) auto
      with assms show ?thesis by (auto simp add: refs_ok_def)
    qed
  qed
  then show "refs_ok s1" and "next_ref s1 = next_ref s" by simp_all
qed

lemma card_create_next_ref: "next_ref s \<le> next_ref (snd (card_create msg s))"
  by (simp add: card_create_def get_access_token_frame effect_defs Let_def case_prod_beta
        split: option.splits http_outcome.splits)

lemma send_ai_card_refs_ok:
  assumes "refs_ok s"
  shows "refs_ok (send_ai_card msg s)"
proof -
  obtain cr s1 where es: "evict_stale (chat_id msg) s = (cr, s1)"
    by (cases "evict_stale (chat_id msg) s")
  have ok1: "refs_ok s1" using assms es by (rule evict_stale_refs)
  show ?thesis
  proof (cases cr)
    case (Some r)
    show ?thesis
    proof (cases "truthy (map_of (metadata msg) ''_progress'')")
      case True
      show ?thesis
        unfolding send_ai_card_progress_card [OF True es [unfolded Some]]
        using ok1 by (rule refs_ok_same) (simp_all add: card_stream_frame set_card_def)
    next
      case False
      show ?thesis
        unfolding send_ai_card_final_card [OF False es [unfolded Some] refl]
        using ok1 by (rule refs_ok_delete) (simp_all add: card_finish_frame set_card_def)
    qed
  next
    case None
    obtain c s2 where cs: "card_create msg s1 = (c, s2)" by (cases "card_create msg s1")
    have ac2: "active_cards s2 = active_cards s1" using card_create_frame(1) [of msg s1] cs by simp
    have n2: "next_ref s1 \<le> next_ref s2" using card_create_next_ref [of s1 msg] cs by simp
    have ok2: "refs_ok s2" using ok1 n2 ac2 by (rule refs_ok_same)
    show ?thesis
    proof (cases c)
      case None2: None
      show ?thesis
        unfolding send_ai_card_fallback [OF es [unfolded None] cs [unfolded None2]]
        using ok2 by (rule refs_ok_same) (simp_all add: send_text_frame)
    next
      case (Some r)
      have r: "r = next_ref s1" "next_ref s2 = Suc (next_ref s1)"
        using card_create_Some [OF cs [unfolded Some]] by simp_all
      show ?thesis
      proof (cases "truthy (map_of (metadata msg) ''_progress'')")
        case True
        have "refs_ok (s2\<lparr>active_cards := AList.update (chat_id msg) r (active_cards s2)\<rparr>)"
          using ok2 r set_update_subset [of "chat_id msg" r "active_cards s2"]
          by (fastforce simp add: refs_ok_def)
        then show ?thesis
          unfolding send_ai_card_progress_new [OF True es [unfolded None] cs [unfolded Some] refl]
          by (rule refs_ok_same) (simp_all add: card_stream_frame set_card_def)
      next
        case False
        show ?thesis
          unfolding send_ai_card_final_new [OF False es [unfolded None] cs [unfolded Some]]
          using ok2 by (rule refs_ok_same) (simp_all add: card_finish_frame set_card_def)
      qed
    qed
  qed
qed

lemma on_message_refs_ok: "refs_ok s \<Longrightarrow> refs_ok (on_message c sid sn chat md s)"
proof -
  assume ok: "refs_ok s"
  let ?key = "case chat of None \<Rightarrow> sid | Some c \<Rightarrow> if c = [] then sid else c"
  have n: "next_ref (on_message c sid sn chat md s) = next_ref s"
    by (simp add: on_message_def Let_def logf_def emit_def card_finish_frame split: option.splits)
  have a: "active_cards (on_message c sid sn chat md s) = AList.delete ?key (active_cards s)"
    by (simp add: on_message_def Let_def logf_def emit_def card_finish_frame split: option.splits)
  from ok n a show ?thesis by (rule refs_ok_delete)
qed

lemma send_card_mode:
  "reply_mode s = ''ai_card'' \<Longrightarrow> truthy (map_of (metadata msg) ''_dingtalk_conversation_type'')
   \<Longrightarrow> send msg s = send_ai_card msg s"
  by (simp add: send_def)

subsection \<open>The suspended variants\<close>

lemma card_put_data_suspended_id:
  "card_put_data_suspended (\<lambda>s. s) r fs c s = card_put_data r fs c s"
  by (simp add: card_put_data_suspended_def card_put_data_def Let_def case_prod_beta
        split: option.splits http_outcome.splits)



lemma card_finish_suspended_id:
  "card_finish_suspended (\<lambda>s. s) r s = card_finish r s"
  by (simp add: card_finish_suspended_def card_finish_def card_put_data_suspended_id)

lemma on_message_run_seq:
  "on_message_run (\<lambda>s. s) handle_message cont sender_id sender_name chat md s =
     on_message cont sender_id sender_name chat md s"
  by (simp add: on_message_run_def on_message_def handle_message_def card_finish_suspended_id
        Let_def emit_def logf_def split: option.splits)

lemma card_put_data_suspended_cards:
  assumes "\<forall>v. active_cards (others v) = active_cards v"
  shows "active_cards (card_put_data_suspended others r fs c s) = active_cards s"
  using assms
  by (simp add: card_put_data_suspended_def get_access_token_frame effect_defs Let_def
        case_prod_beta split: option.splits http_outcome.splits)

lemma card_finish_suspended_cards:
  assumes "\<forall>v. active_cards (others v) = active_cards v"
  shows "active_cards (card_finish_suspended others r s) = active_cards s"
  using card_put_data_suspended_cards [OF assms]
  by (simp add: card_finish_suspended_def Let_def card_stream_frame)

lemma on_message_run_handler:
  assumes "key = (case chat of None \<Rightarrow> sender_id | Some c \<Rightarrow> if c = [] then sender_id else c)"
    and "map_of (active_cards s) key = Some r"
    and "s0 = logf Info ''Finishing stale AI card for {} (new message received)''
                 (s\<lparr>active_cards := AList.delete key (active_cards s)\<rparr>)"
    and "md1 = (case md of
                  None \<Rightarrow> [(''sender_name'', PyStr sender_name), (''platform'', PyStr ''dingtalk'')]
                | Some m \<Rightarrow>
                    if m = [] then [(''sender_name'', PyStr sender_name), (''platform'', PyStr ''dingtalk'')]
                    else m)"
  shows "on_message_run others hm cont sender_id sender_name chat md s =
           (let (raised, s4) =
                  hm sender_id key cont md1
                    (logf Info ''DingTalk inbound: {} from {}'' (card_finish_suspended others r s0))
            in if raised then logf Error ''Error publishing DingTalk message: {}'' s4 else s4)"
  using assms by (simp add: on_message_run_def Let_def)

subsection \<open>The announce call\<close>




text \<open>
  C9, as the code has it. \<open>card_ensure_inputing\<close> sets \<open>inputing_started\<close> after the
  card-data update whatever became of it, so after any \<open>card_stream\<close> on a card the flag is
  set, and a \<open>card_stream\<close> on a card whose flag is set adds no announce request: the
  announce is attempted once per card and never again.
\<close>

theorem announce_never_retried:
  "inputing_started (heap (card_ensure_inputing r s) r) \<and>
   inputing_started (heap (card_stream r c f s) r) \<and>
   (inputing_started (heap s2 r) \<longrightarrow>
      filter is_announce (trace (card_stream r c2 f2 s2)) = filter is_announce (trace s2))"
  by (simp add: card_ensure_inputing_heap card_stream_frame card_stream_no_announce)

theorem announce_never_retried_witness:
  "inputing_started (heap (card_stream 0 ''a'' False world_down) 0) \<and>
   filter is_announce (trace (card_stream 0 ''b'' False (card_stream 0 ''a'' False world_down)))
     = filter is_announce (trace (card_stream 0 ''a'' False world_down))"
  using announce_never_retried
    [of 0 world_down "''a''" False "card_stream 0 ''a'' False world_down" "''b''" False]
  by simp

text \<open>
  C9 as stated fails: in \<open>world_down\<close> the announce request of the first \<open>card_stream\<close>
  raises, and the second \<open>card_stream\<close> on the same card makes a streaming request only.
\<close>

theorem announce_retry_counterexample:
  "http_reply world_down (length (trace world_down)) (PutCardData ''tok'' ''card_0'' ''2'' [])
     = Raised \<and>
   trace (card_stream 0 ''a'' False world_down) =
     [PutCardData ''tok'' ''card_0'' ''2'' [], CardStreaming ''tok'' ''card_0'' ''u0'' ''a'' False] \<and>
   trace (card_stream 0 ''b'' False (card_stream 0 ''a'' False world_down)) =
     [PutCardData ''tok'' ''card_0'' ''2'' [], CardStreaming ''tok'' ''card_0'' ''u0'' ''a'' False,
      CardStreaming ''tok'' ''card_0'' ''u1'' ''b'' False]"
  by (simp add: world_defs op_defs Let_def)

subsection \<open>Finishing a card\<close>

lemma card_finish_no_client:
  "\<not> http s \<Longrightarrow> card_calls (trace (card_finish r s)) = card_calls (trace s)"
proof -
  assume nh: "\<not> http s"
  have pd: "\<And>u r fs c. \<not> http u \<Longrightarrow> card_calls (trace (card_put_data r fs c u)) = card_calls (trace u)"
    by (simp add: card_put_data_def get_access_token_frame case_prod_beta split: option.splits)
  have ei: "card_calls (trace (card_ensure_inputing r s)) = card_calls (trace s)"
    using nh pd by (simp add: card_ensure_inputing_def set_card_def Let_def)
  have st: "\<And>c f. card_calls (trace (card_stream r c f s)) = card_calls (trace s)"
    using nh ei
    by (simp add: card_stream_def get_access_token_frame card_ensure_inputing_frame
          case_prod_beta Let_def split: option.splits)
  show ?thesis
    using nh st pd by (simp add: card_finish_def Let_def card_stream_frame)
qed

text \<open>
  C1, as the code has it. Apart from token requests, \<open>card_finish\<close> adds to the trace, in
  this order: at most one announce request (none when the card is announced already), at
  most one streaming request with \<open>isFinalize\<close> set, at most one card-data update with flow
  status 3. The streaming request and the update carry the same content: the accumulated
  content of the card, or \<open>...\<close> when that is empty. With a valid cached token and a
  client, the streaming request and the update are both made, whatever the remote answers
  to either. Without a client no request is made.
\<close>

theorem card_finish_two_calls:
  "(\<exists>ts1 ts2 ts3.
      card_calls (trace (card_finish r s)) =
        card_calls (trace s)
        @ map (\<lambda>t. PutCardData t (card_instance_id (heap s r)) ''2'' []) ts1
        @ map (\<lambda>t. CardStreaming t (card_instance_id (heap s r)) (uuids s (uuid_i s))
                 (if accumulated_content (heap s r) = [] then ''...''
                  else accumulated_content (heap s r)) True) ts2
        @ map (\<lambda>t. PutCardData t (card_instance_id (heap s r)) ''3''
                 (if accumulated_content (heap s r) = [] then ''...''
                  else accumulated_content (heap s r))) ts3
      \<and> length ts1 \<le> 1 \<and> length ts2 \<le> 1 \<and> length ts3 \<le> 1
      \<and> (inputing_started (heap s r) \<longrightarrow> ts1 = [])) \<and>
   (token_ok s tok \<longrightarrow>
      trace (card_finish r s) =
        trace s
        @ (if inputing_started (heap s r) then []
           else [PutCardData tok (card_instance_id (heap s r)) ''2'' []])
        @ [CardStreaming tok (card_instance_id (heap s r)) (uuids s (uuid_i s))
             (if accumulated_content (heap s r) = [] then ''...''
              else accumulated_content (heap s r)) True,
           PutCardData tok (card_instance_id (heap s r)) ''3''
             (if accumulated_content (heap s r) = [] then ''...''
              else accumulated_content (heap s r))]) \<and>
   (\<not> http s2 \<longrightarrow> card_calls (trace (card_finish r s2)) = card_calls (trace s2))"
  using card_finish_calls [of r s] card_finish_ok(1) [of s tok r] card_finish_no_client [of s2 r]
  by blast

theorem card_finish_two_calls_witness:
  "token_ok world_started ''tok'' \<and> inputing_started (heap world_started 0) \<and>
   \<not> http world_no_http \<and>
   trace (card_finish 0 world_started) =
     [CardStreaming ''tok'' ''card_0'' ''u0'' ''hi'' True, PutCardData ''tok'' ''card_0'' ''3'' ''hi''] \<and>
   card_calls (trace (card_finish 0 world_no_http)) = []"
  using card_finish_two_calls [of 0 world_started "''tok''" world_no_http, THEN conjunct2]
  by (simp add: token_ok_def world_defs)

text \<open>
  C1 as stated fails twice. On a card with no accumulated content the finished update
  carries the placeholder, not the (empty) accumulated content; and without an HTTP client
  \<open>card_finish\<close> makes no request at all.
\<close>

theorem card_finish_counterexample:
  "accumulated_content (heap world0 0) = [] \<and>
   trace (card_finish 0 world0) =
     [PutCardData ''tok'' ''card_0'' ''2'' [],
      CardStreaming ''tok'' ''card_0'' ''u0'' ''...'' True,
      PutCardData ''tok'' ''card_0'' ''3'' ''...''] \<and>
   trace (card_finish 0 world_no_http) = []"
  by (simp add: world_defs op_defs Let_def)

subsection \<open>A new inbound message interrupts the open card\<close>

text \<open>
  C4, as the code has it. When the dict has a card for the resolved chat key,
  \<open>on_message_run\<close> calls the handler, whatever it is, on the state \<open>u\<close> reached by
  removing the card from the dict and then finishing it: the pop and the finish come
  before the hand-over. If what the other coroutines do while the method is suspended in
  the finished update leaves the dict alone, in particular if nothing else runs, the dict
  has no card for the key in \<open>u\<close>, the moment of the hand-over. Run without interruption
  and with the handler of the channel this is
  \<open>on_message\<close>: its trace is the trace of finishing the card followed by the one
  \<open>HandleMessage\<close> event, and the dict has no card for the key at the end; with a valid
  cached token the requests before the hand-over are the finalize stream and the finished
  update.
\<close>

theorem on_message_pops_then_finishes:
  assumes "key = (case chat of None \<Rightarrow> sender_id | Some c \<Rightarrow> if c = [] then sender_id else c)"
    and "map_of (active_cards s) key = Some r"
    and "s0 = logf Info ''Finishing stale AI card for {} (new message received)''
                 (s\<lparr>active_cards := AList.delete key (active_cards s)\<rparr>)"
    and "md1 = (case md of
                  None \<Rightarrow> [(''sender_name'', PyStr sender_name), (''platform'', PyStr ''dingtalk'')]
                | Some m \<Rightarrow>
                    if m = [] then [(''sender_name'', PyStr sender_name), (''platform'', PyStr ''dingtalk'')]
                    else m)"
    and "u = logf Info ''DingTalk inbound: {} from {}'' (card_finish_suspended others r s0)"
  shows "on_message_run others hm cont sender_id sender_name chat md s =
           (let (raised, s4) = hm sender_id key cont md1 u
            in if raised then logf Error ''Error publishing DingTalk message: {}'' s4 else s4) \<and>
         ((\<forall>v. active_cards (others v) = active_cards v) \<longrightarrow>
            map_of (active_cards u) key = None) \<and>
         on_message_run (\<lambda>s. s) handle_message cont sender_id sender_name chat md s =
           on_message cont sender_id sender_name chat md s \<and>
         card_finish_suspended (\<lambda>s. s) r s0 = card_finish r s0 \<and>
         trace (on_message cont sender_id sender_name chat md s) =
           trace (card_finish r s0) @ [HandleMessage sender_id key cont md1] \<and>
         map_of (active_cards (on_message cont sender_id sender_name chat md s)) key = None \<and>
         (token_ok s tok \<longrightarrow>
            trace (on_message cont sender_id sender_name chat md s) =
              trace s
              @ (if inputing_started (heap s r) then []
                 else [PutCardData tok (card_instance_id (heap s r)) ''2'' []])
              @ [CardStreaming tok (card_instance_id (heap s r)) (uuids s (uuid_i s))
                   (if accumulated_content (heap s r) = [] then ''...''
                    else accumulated_content (heap s r)) True,
                 PutCardData tok (card_instance_id (heap s r)) ''3''
                   (if accumulated_content (heap s r) = [] then ''...''
                    else accumulated_content (heap s r)),
                 HandleMessage sender_id key cont md1])"
proof -
  have run: "on_message_run others hm cont sender_id sender_name chat md s =
           (let (raised, s4) = hm sender_id key cont md1 u
            in if raised then logf Error ''Error publishing DingTalk message: {}'' s4 else s4)"
    using on_message_run_handler [OF assms(1,2,3,4)] assms(5) by simp
  have reg: "map_of (active_cards u) key = None"
    if "\<forall>v. active_cards (others v) = active_cards v"
    using card_finish_suspended_cards [OF that, of r s0]
    by (simp add: assms(3,5) logf_def delete_lookup)
  have tr: "trace (on_message cont sender_id sender_name chat md s) =
           trace (card_finish r s0) @ [HandleMessage sender_id key cont md1]"
    and ac: "active_cards (on_message cont sender_id sender_name chat md s) = active_cards (card_finish r s0)"
    and ad: "active_cards (card_finish r s0) = AList.delete key (active_cards s)"
    using on_message_state(1) [OF assms(1,2) _ assms(4), where ?s1.0 = "card_finish r s0" and cont = cont]
      on_message_state(2) [OF assms(1,2) _ assms(4), where ?s1.0 = "card_finish r s0" and cont = cont]
      on_message_state(3) [OF assms(1,2) _ assms(4), where ?s1.0 = "card_finish r s0"]
      assms(3) by simp_all
  have fin: "map_of (active_cards (on_message cont sender_id sender_name chat md s)) key = None"
    by (simp add: ac ad delete_lookup)
  have s0: "heap s0 = heap s" "trace s0 = trace s" "uuids s0 = uuids s" "uuid_i s0 = uuid_i s"
    by (simp_all add: assms(3) logf_def)
  have ok: "token_ok s tok \<Longrightarrow> token_ok s0 tok"
    by (simp add: token_ok_def assms(3) logf_def)
  have expl: "trace (on_message cont sender_id sender_name chat md s) =
              trace s
              @ (if inputing_started (heap s r) then []
                 else [PutCardData tok (card_instance_id (heap s r)) ''2'' []])
              @ [CardStreaming tok (card_instance_id (heap s r)) (uuids s (uuid_i s))
                   (if accumulated_content (heap s r) = [] then ''...''
                    else accumulated_content (heap s r)) True,
                 PutCardData tok (card_instance_id (heap s r)) ''3''
                   (if accumulated_content (heap s r) = [] then ''...''
                    else accumulated_content (heap s r)),
                 HandleMessage sender_id key cont md1]"
    if "token_ok s tok"
    using tr s0 card_finish_ok(1) [OF ok [OF that], of r] by simp
  show ?thesis
    using run reg on_message_run_seq [of cont sender_id sender_name chat md s]
      card_finish_suspended_id [of r s0] tr fin expl
    by blast
qed

theorem on_message_pops_then_finishes_witness:
  "map_of (active_cards world_started) ''chat1'' = Some 0 \<and>
   (\<forall>v. active_cards ((\<lambda>s. s) v) = active_cards v) \<and> token_ok world_started ''tok'' \<and>
   trace (on_message_run (\<lambda>s. s) probe_message ''hello'' ''user1'' ''User'' (Some ''chat1'') None
            world_started) =
     [CardStreaming ''tok'' ''card_0'' ''u0'' ''hi'' True,
      PutCardData ''tok'' ''card_0'' ''3'' ''hi'',
      HandleMessage ''user1'' ''chat1'' ''hello'' [(''card_open'', PyBool False)]] \<and>
   trace (on_message ''hello'' ''user1'' ''User'' (Some ''chat1'') None world_started) =
     [CardStreaming ''tok'' ''card_0'' ''u0'' ''hi'' True,
      PutCardData ''tok'' ''card_0'' ''3'' ''hi'',
      HandleMessage ''user1'' ''chat1'' ''hello''
        [(''sender_name'', PyStr ''User''), (''platform'', PyStr ''dingtalk'')]]"
proof -
  have key: "''chat1'' = (case Some ''chat1'' of None \<Rightarrow> ''user1''
                          | Some c \<Rightarrow> if c = [] then ''user1'' else c)"
    by simp
  have card: "map_of (active_cards world_started) ''chat1'' = Some 0"
    by (simp add: world_defs)
  have ok: "token_ok world_started ''tok''"
    by (simp add: token_ok_def world_defs)
  have w: "trace world_started = []" "inputing_started (heap world_started 0)"
    "card_instance_id (heap world_started 0) = ''card_0''"
    "accumulated_content (heap world_started 0) = ''hi''"
    "uuids world_started (uuid_i world_started) = ''u0''"
    by (simp_all add: world_defs)
  define s0 where "s0 = logf Info ''Finishing stale AI card for {} (new message received)''
                 (world_started\<lparr>active_cards := AList.delete ''chat1'' (active_cards world_started)\<rparr>)"
  define u where "u = logf Info ''DingTalk inbound: {} from {}'' (card_finish_suspended (\<lambda>s. s) 0 s0)"
  note th = on_message_pops_then_finishes [OF key card s0_def refl u_def,
      where hm = probe_message and tok = "''tok''" and sender_name = "''User''" and md = None
        and cont = "''hello''"]
  have none: "map_of (active_cards u) ''chat1'' = None" using th by simp
  have fin: "card_finish_suspended (\<lambda>s. s) 0 s0 = card_finish 0 s0" using th by blast
  have ok0: "token_ok s0 ''tok''" using ok by (simp add: token_ok_def s0_def logf_def)
  have s0f: "trace s0 = []" "inputing_started (heap s0 0)"
    "card_instance_id (heap s0 0) = ''card_0''" "accumulated_content (heap s0 0) = ''hi''"
    "uuids s0 (uuid_i s0) = ''u0''"
    using w by (simp_all add: s0_def logf_def)
  have tf: "trace (card_finish 0 s0) = [CardStreaming ''tok'' ''card_0'' ''u0'' ''hi'' True,
      PutCardData ''tok'' ''card_0'' ''3'' ''hi'']"
    using card_finish_ok(1) [OF ok0, of 0] s0f by simp
  have tu: "trace u = [CardStreaming ''tok'' ''card_0'' ''u0'' ''hi'' True,
      PutCardData ''tok'' ''card_0'' ''3'' ''hi'']"
    by (simp add: u_def fin tf logf_def)
  have run: "on_message_run (\<lambda>s. s) probe_message ''hello'' ''user1'' ''User'' (Some ''chat1'') None
            world_started = snd (probe_message ''user1'' ''chat1'' ''hello''
               [(''sender_name'', PyStr ''User''), (''platform'', PyStr ''dingtalk'')] u)"
    using th by (simp add: probe_message_def)
  have t1: "trace (on_message_run (\<lambda>s. s) probe_message ''hello'' ''user1'' ''User'' (Some ''chat1'') None
            world_started) =
     [CardStreaming ''tok'' ''card_0'' ''u0'' ''hi'' True,
      PutCardData ''tok'' ''card_0'' ''3'' ''hi'',
      HandleMessage ''user1'' ''chat1'' ''hello'' [(''card_open'', PyBool False)]]"
    by (simp add: run probe_message_def emit_def tu none)
  have t2: "trace (on_message ''hello'' ''user1'' ''User'' (Some ''chat1'') None world_started) =
     [CardStreaming ''tok'' ''card_0'' ''u0'' ''hi'' True,
      PutCardData ''tok'' ''card_0'' ''3'' ''hi'',
      HandleMessage ''user1'' ''chat1'' ''hello''
        [(''sender_name'', PyStr ''User''), (''platform'', PyStr ''dingtalk'')]]"
    using th ok w tf by simp
  show ?thesis using card ok t1 t2 by simp
qed

text \<open>
  C4 as stated fails when another coroutine registers a card for the chat during the
  awaits of the finish. \<open>_on_message\<close> has popped the card of \<open>chat1\<close> and is suspended in
  the finished update; a progress message for \<open>chat1\<close> is handled meanwhile and, finding
  no card, creates and registers one; then the inbound message is handed over: the handler
  finds a card for the chat in the dict.
\<close>

theorem forwarded_with_card_open_counterexample:
  "map_of (active_cards world_started) ''chat1'' = Some 0 \<and>
   trace (on_message_run (send_ai_card chat1_msg) probe_message
            ''hello'' ''user1'' ''User'' (Some ''chat1'') None world_started) =
     [CardStreaming ''tok'' ''card_0'' ''u0'' ''hi'' True,
      PutCardData ''tok'' ''card_0'' ''3'' ''hi'',
      CreateAndDeliver ''tok'' ''card_u1'' ''dtv1.card//IM_ROBOT.staff1''
        (ImRobotOpenDeliverModel ''IM_ROBOT''),
      PutCardData ''tok'' ''card_u1'' ''2'' [],
      CardStreaming ''tok'' ''card_u1'' ''u2'' (''thinking...'' @ [CHR 0x0A, CHR 0x0A]) False,
      HandleMessage ''user1'' ''chat1'' ''hello'' [(''card_open'', PyBool True)]] \<and>
   map_of (active_cards (on_message_run (send_ai_card chat1_msg) handle_message
            ''hello'' ''user1'' ''User'' (Some ''chat1'') None world_started)) ''chat1'' = Some 1"
  by (simp add: run_defs chat1_msg_def world_defs op_defs Let_def)

subsection \<open>Stopping the channel\<close>

lemma finish_cards_fold:
  "finish_cards fin cards s =
     fold (\<lambda>(key, r) s. let (raised, s1) = fin r s in
             if raised then logf Warning ''Failed to finish card for {} on stop: {}'' s1 else s1)
       cards s"
  by (induction cards arbitrary: s) (auto simp add: Let_def split: prod.splits)

lemma fold_card_finish_frame:
  "active_cards (fold (\<lambda>(key, r). card_finish r) cards s) = active_cards s"
  "http (fold (\<lambda>(key, r). card_finish r) cards s) = http s"
  "background_tasks (fold (\<lambda>(key, r). card_finish r) cards s) = background_tasks s"
  "running (fold (\<lambda>(key, r). card_finish r) cards s) = running s"
  by (induction cards arbitrary: s) (auto simp add: card_finish_frame)

lemma fold_cancel:
  "trace (fold (\<lambda>t. emit (TaskCancel t)) ts s) = trace s @ map TaskCancel ts"
  "http (fold (\<lambda>t. emit (TaskCancel t)) ts s) = http s"
  "active_cards (fold (\<lambda>t. emit (TaskCancel t)) ts s) = active_cards s"
  "running (fold (\<lambda>t. emit (TaskCancel t)) ts s) = running s"
  by (induction ts arbitrary: s) (auto simp add: emit_def)

lemma stop_with_post:
  "active_cards (stop_with fin s) = []"
  "\<not> http (stop_with fin s)"
  "background_tasks (stop_with fin s) = []"
  by (simp_all add: stop_with_def Let_def fold_cancel emit_def)

lemma stop_trace:
  "trace (stop s) =
     trace (fold (\<lambda>(key, r). card_finish r) (active_cards s) (s\<lparr>running := False\<rparr>))
     @ (if http s then [HttpClose] else [])
     @ map TaskCancel (background_tasks s)"
  by (simp add: stop_def stop_with_def finish_cards_fold Let_def fold_cancel emit_def
        fold_card_finish_frame)

lemma sim_finish_cards:
  "sim s t \<Longrightarrow>
   sim (finish_cards (\<lambda>r s. (raises r s, card_finish r s)) cards s)
       (finish_cards (\<lambda>r s. (False, card_finish r s)) cards t)"
proof (induction cards arbitrary: s t)
  case Nil
  then show ?case by simp
next
  case (Cons a cards)
  obtain key r where a: "a = (key, r)" by (cases a)
  have "sim (card_finish r s) (card_finish r t)" using Cons.prems by (rule sim_card_finish)
  then have "sim (if raises r s then logf Warning ''Failed to finish card for {} on stop: {}'' (card_finish r s)
                  else card_finish r s) (card_finish r t)"
    by (simp add: sim_logf_left)
  from Cons.IH [OF this] show ?case by (simp add: a)
qed

lemma stop_with_raising_trace:
  "trace (stop_with (\<lambda>r s. (raises r s, card_finish r s)) s) = trace (stop s)"
proof -
  let ?a = "finish_cards (\<lambda>r s. (raises r s, card_finish r s)) (active_cards s) (s\<lparr>running := False\<rparr>)"
  let ?b = "finish_cards (\<lambda>r s. (False, card_finish r s)) (active_cards s) (s\<lparr>running := False\<rparr>)"
  have "sim ?a ?b" by (rule sim_finish_cards) (rule sim_refl)
  then have "trace ?a = trace ?b" "http ?a = http ?b" "background_tasks ?a = background_tasks ?b"
    by (simp_all add: sim_def)
  then show ?thesis
    by (simp add: stop_def stop_with_def Let_def fold_cancel emit_def)
qed

text \<open>
  C8. The loop of \<open>stop\<close> is a fold over every entry of the dict: a finisher that raises
  only adds a log line, and the next card is finished all the same. Whatever the finisher
  does, afterwards the dict is empty, the client is gone and the task set is empty. With
  \<open>card_finish\<close> the trace of \<open>stop\<close> is the trace of finishing every card in dict order,
  then \<open>HttpClose\<close> if there was a client, then one \<open>TaskCancel\<close> per tracked task; and if
  \<open>card_finish\<close> raised on any of the cards after its calls, the trace would be the same.
\<close>

theorem stop_finishes_every_card:
  "finish_cards fin cards s =
     fold (\<lambda>(key, r) s. let (raised, s1) = fin r s in
             if raised then logf Warning ''Failed to finish card for {} on stop: {}'' s1 else s1)
       cards s \<and>
   active_cards (stop_with fin s) = [] \<and> \<not> http (stop_with fin s) \<and>
   background_tasks (stop_with fin s) = [] \<and>
   active_cards (stop s) = [] \<and> \<not> http (stop s) \<and> background_tasks (stop s) = [] \<and>
   trace (stop s) =
     trace (fold (\<lambda>(key, r). card_finish r) (active_cards s) (s\<lparr>running := False\<rparr>))
     @ (if http s then [HttpClose] else [])
     @ map TaskCancel (background_tasks s) \<and>
   trace (stop_with (\<lambda>r s. (raises r s, card_finish r s)) s) = trace (stop s)"
  using finish_cards_fold [of fin cards s] stop_with_post [of fin s] stop_trace [of s]
    stop_with_raising_trace [of raises s]
  by (simp add: stop_def stop_with_post)

theorem stop_finishes_every_card_witness:
  "trace (stop world_two) =
     [PutCardData ''tok'' ''card_0'' ''2'' [],
      CardStreaming ''tok'' ''card_0'' ''u0'' ''...'' True,
      PutCardData ''tok'' ''card_0'' ''3'' ''...'',
      PutCardData ''tok'' ''card_1'' ''2'' [],
      CardStreaming ''tok'' ''card_1'' ''u1'' ''...'' True,
      PutCardData ''tok'' ''card_1'' ''3'' ''...'',
      HttpClose, TaskCancel 7, TaskCancel 8] \<and>
   active_cards (stop world_two) = [] \<and> \<not> http (stop world_two) \<and>
   background_tasks (stop world_two) = []"
proof -
  have "trace (fold (\<lambda>(key, r). card_finish r) (active_cards world_two)
                 (world_two\<lparr>running := False\<rparr>)) =
     [PutCardData ''tok'' ''card_0'' ''2'' [],
      CardStreaming ''tok'' ''card_0'' ''u0'' ''...'' True,
      PutCardData ''tok'' ''card_0'' ''3'' ''...'',
      PutCardData ''tok'' ''card_1'' ''2'' [],
      CardStreaming ''tok'' ''card_1'' ''u1'' ''...'' True,
      PutCardData ''tok'' ''card_1'' ''3'' ''...'']"
    by (simp add: world_defs op_defs Let_def)
  moreover have "http world_two" "background_tasks world_two = [7, 8]"
    by (simp_all add: world_defs)
  ultimately show ?thesis
    using stop_finishes_every_card [of "\<lambda>r s. (False, card_finish r s)" "[]" world_two "\<lambda>r s. False"]
    by simp
qed

subsection \<open>The text fallback in a group chat\<close>

text \<open>
  C10. For a message whose conversation type is \<open>2\<close>, \<open>send_text\<close> adds one warning to the
  log and nothing else: no event. So when the message has no usable card (none in the dict,
  or a stale one just evicted) and the creation of a card fails, \<open>send_ai_card\<close> ends in
  the state the failed creation left, plus that warning: no \<open>BatchSend\<close> is made, and the
  dict has no card for the chat.
\<close>

theorem group_fallback_delivers_nothing:
  assumes "map_of (metadata msg) ''_dingtalk_conversation_type'' = Some (PyStr ''2'')"
  shows "send_text msg s =
           logf Warning ''Text fallback not supported for group chats, skipping message to {}'' s \<and>
         trace (send_text msg s) = trace s \<and>
         (evict_stale (chat_id msg) s = (None, s1) \<and> fst (card_create msg s1) = None \<longrightarrow>
            send_ai_card msg s =
              logf Warning ''Text fallback not supported for group chats, skipping message to {}''
                (snd (card_create msg s1)) \<and>
            trace (send_ai_card msg s) = trace (snd (card_create msg s1)) \<and>
            filter is_batch_send (trace (send_ai_card msg s)) = filter is_batch_send (trace s) \<and>
            map_of (active_cards (send_ai_card msg s)) (chat_id msg) = None)"
proof -
  have st: "\<And>u. send_text msg u =
      logf Warning ''Text fallback not supported for group chats, skipping message to {}'' u"
    using assms by (simp add: send_text_def)
  have "send_ai_card msg s = send_text msg (snd (card_create msg s1))"
    and "filter is_batch_send (trace (snd (card_create msg s1))) = filter is_batch_send (trace s)"
    and "map_of (active_cards (snd (card_create msg s1))) (chat_id msg) = None"
    if e: "evict_stale (chat_id msg) s = (None, s1)" and c: "fst (card_create msg s1) = None"
  proof -
    have c2: "card_create msg s1 = (None, snd (card_create msg s1))"
      using c by (cases "card_create msg s1") simp
    show "send_ai_card msg s = send_text msg (snd (card_create msg s1))"
      using e c2 by (rule send_ai_card_fallback)
    have "filter is_batch_send (trace s1) = filter is_batch_send (trace s)"
      using evict_stale_sends [of "chat_id msg" s] e by simp
    then show "filter is_batch_send (trace (snd (card_create msg s1))) = filter is_batch_send (trace s)"
      by (simp add: card_create_sends)
    show "map_of (active_cards (snd (card_create msg s1))) (chat_id msg) = None"
      using evict_stale_None [OF e] by (simp add: card_create_frame)
  qed
  then show ?thesis
    by (simp add: st logf_def)
qed

theorem group_fallback_delivers_nothing_witness:
  "map_of (metadata group_msg) ''_dingtalk_conversation_type'' = Some (PyStr ''2'') \<and>
   evict_stale (chat_id group_msg) world_down = (None, world_down) \<and>
   fst (card_create group_msg world_down) = None \<and>
   trace (send_ai_card group_msg world_down) =
     [CreateAndDeliver ''tok'' ''card_u0'' ''dtv1.card//IM_GROUP.cid9'' (ImGroupOpenDeliverModel ''app'')] \<and>
   filter is_batch_send (trace (send_ai_card group_msg world_down)) = []"
proof -
  have m: "map_of (metadata group_msg) ''_dingtalk_conversation_type'' = Some (PyStr ''2'')"
    by (simp add: group_msg_def)
  have e: "evict_stale (chat_id group_msg) world_down = (None, world_down)"
    by (simp add: evict_stale_def group_msg_def world_defs)
  have c: "card_create group_msg world_down =
     (None, logf Error ''Error creating DingTalk AI card: {}''
        (emit (CreateAndDeliver ''tok'' ''card_u0'' ''dtv1.card//IM_GROUP.cid9'' (ImGroupOpenDeliverModel ''app''))
           (world_down\<lparr>ticks := 1, uuid_i := 1\<rparr>)))"
    by (simp add: card_create_def create_request_def build_open_space_id_def get_default_def
          group_msg_def world_defs op_defs Let_def)
  have t: "trace world_down = []" by (simp add: world_defs)
  show ?thesis
    using group_fallback_delivers_nothing [OF m, of world_down world_down] m e c t
    by (simp add: logf_def emit_def)
qed

lemma card_put_data_logs:
  assumes "token_ok s tok"
  shows "logs (card_put_data r fs c s) = logs s @
     [case http_reply s (length (trace s)) (PutCardData tok (card_instance_id (heap s r)) fs c) of
        Raised \<Rightarrow> (Error, ''Error updating DingTalk AI card data: {}'')
      | Status n \<Rightarrow>
          if n \<noteq> 200 then (Error, ''DingTalk card put_data failed ({}): {}'')
          else (Debug, ''DingTalk card put_data (flowStatus={})'')]"
  using assms
  by (auto simp add: card_put_data_def get_access_token_ok effect_defs token_ok_def
        split: http_outcome.splits)

lemma card_stream_logs:
  assumes "token_ok s tok" and "inputing_started (heap s r)"
  shows "logs (card_stream r c f s) = logs s @
     [case http_reply s (length (trace s))
             (CardStreaming tok (card_instance_id (heap s r)) (uuids s (uuid_i s)) c f) of
        Raised \<Rightarrow> (Error, ''Error streaming DingTalk AI card: {}'')
      | Status n \<Rightarrow>
          if n \<noteq> 200 then (Error, ''DingTalk card streaming failed ({}): {}'')
          else (Debug, ''DingTalk card streamed (finalize={})'')]"
  using assms
  by (auto simp add: card_stream_def card_ensure_inputing_noop get_access_token_ok effect_defs
        token_ok_def split: http_outcome.splits)

subsection \<open>Creation failure is the one failure that changes the course\<close>

text \<open>
  C6. \<open>card_create\<close> returns no card exactly when no token is obtained (none, or an empty
  one), the client is missing, or the create request raises or is answered with a status
  other than 200. When the message has no usable card and creation fails, \<open>send_ai_card\<close>
  is \<open>send_text\<close> on the state the failed creation left, and the dict is as it was: no
  card is registered. The answers to all other requests reach only the log: from two
  states that differ in nothing but the log and those answers (\<open>sim\<close>), the dispatcher and
  the card helpers end in two states that again differ in nothing else. With a valid token,
  the log line of an update or streaming request is an error line unless the answer is 200.
\<close>

theorem creation_failure_falls_back:
  "(fst (card_create msg s) = None \<longleftrightarrow>
      (case fst (get_access_token s) of
         None \<Rightarrow> True
       | Some t \<Rightarrow>
           t = [] \<or> \<not> http s \<or>
           http_reply s (length (trace (snd (get_access_token s))))
             (create_request msg (client_id s) t (''card_'' @ uuids s (uuid_i s))) \<noteq> Status 200)) \<and>
   (evict_stale (chat_id msg) s = (None, s1) \<and> fst (card_create msg s1) = None \<longrightarrow>
      send_ai_card msg s = send_text msg (snd (card_create msg s1)) \<and>
      active_cards (send_ai_card msg s) = active_cards s1 \<and>
      map_of (active_cards (send_ai_card msg s)) (chat_id msg) = None) \<and>
   (sim s t \<longrightarrow>
      sim (send_ai_card msg s) (send_ai_card msg t) \<and>
      sim (card_put_data r fs c s) (card_put_data r fs c t) \<and>
      sim (card_stream r c f s) (card_stream r c f t) \<and>
      sim (card_finish r s) (card_finish r t)) \<and>
   (token_ok s tok \<longrightarrow>
      logs (card_put_data r fs c s) = logs s @
        [case http_reply s (length (trace s)) (PutCardData tok (card_instance_id (heap s r)) fs c) of
           Raised \<Rightarrow> (Error, ''Error updating DingTalk AI card data: {}'')
         | Status n \<Rightarrow>
             if n \<noteq> 200 then (Error, ''DingTalk card put_data failed ({}): {}'')
             else (Debug, ''DingTalk card put_data (flowStatus={})'')]) \<and>
   (token_ok s tok \<and> inputing_started (heap s r) \<longrightarrow>
      logs (card_stream r c f s) = logs s @
        [case http_reply s (length (trace s))
                (CardStreaming tok (card_instance_id (heap s r)) (uuids s (uuid_i s)) c f) of
           Raised \<Rightarrow> (Error, ''Error streaming DingTalk AI card: {}'')
         | Status n \<Rightarrow>
             if n \<noteq> 200 then (Error, ''DingTalk card streaming failed ({}): {}'')
             else (Debug, ''DingTalk card streamed (finalize={})'')])"
proof -
  have fb: "send_ai_card msg s = send_text msg (snd (card_create msg s1)) \<and>
      active_cards (send_ai_card msg s) = active_cards s1 \<and>
      map_of (active_cards (send_ai_card msg s)) (chat_id msg) = None"
    if e: "evict_stale (chat_id msg) s = (None, s1)" and cn: "fst (card_create msg s1) = None"
  proof -
    have c2: "card_create msg s1 = (None, snd (card_create msg s1))"
      using cn by (cases "card_create msg s1") simp
    have "send_ai_card msg s = send_text msg (snd (card_create msg s1))"
      using e c2 by (rule send_ai_card_fallback)
    then show ?thesis
      using evict_stale_None [OF e] by (simp add: send_text_frame card_create_frame)
  qed
  show ?thesis
    using card_create_None_iff [of msg s] fb
      sim_send_ai_card [of s t msg] sim_card_put_data [of s t r fs c] sim_card_stream [of s t r c f]
      sim_card_finish [of s t r] card_put_data_logs [of s tok r fs c] card_stream_logs [of s tok r c f]
    by blast
qed



theorem creation_failure_falls_back_witness:
  "evict_stale (chat_id private_msg) world_down_started = (None, world_down_started) \<and>
   fst (card_create private_msg world_down_started) = None \<and>
   sim world_down_started world_half_down \<and> token_ok world_down_started ''tok'' \<and>
   inputing_started (heap world_down_started 0) \<and>
   send_ai_card private_msg world_down_started =
     send_text private_msg (snd (card_create private_msg world_down_started)) \<and>
   map_of (active_cards (send_ai_card private_msg world_down_started)) (chat_id private_msg) = None \<and>
   sim (send_ai_card private_msg world_down_started) (send_ai_card private_msg world_half_down) \<and>
   logs (card_stream 0 ''x'' False world_down_started) =
     [(Error, ''Error streaming DingTalk AI card: {}'')]"
proof -
  have e: "evict_stale (chat_id private_msg) world_down_started = (None, world_down_started)"
    by (simp add: evict_stale_def private_msg_def world_down_started_def world_defs)
  have c: "fst (card_create private_msg world_down_started) = None"
    by (simp add: card_create_def create_request_def private_msg_def world_down_started_def
          world_defs op_defs Let_def)
  have s: "sim world_down_started world_half_down"
    by (simp add: sim_def world_down_started_def world_half_down_def)
  have ok: "token_ok world_down_started ''tok''"
    by (simp add: token_ok_def world_down_started_def world_defs)
  have st: "inputing_started (heap world_down_started 0)"
    by (simp add: world_down_started_def world_defs)
  have w: "logs world_down_started = []"
    "\<And>n e. http_reply world_down_started n e = Raised"
    by (simp_all add: world_down_started_def world_defs)
  show ?thesis
    using creation_failure_falls_back [where msg = private_msg and s = world_down_started
        and ?s1.0 = world_down_started and t = world_half_down and r = 0 and fs = "''3''" and c = "''x''"
        and f = False and tok = "''tok''", THEN conjunct2] e c s ok st w
    by auto
qed

subsection \<open>Eviction of a stale card\<close>

text \<open>
  C3. When the dict has a card for the chat of the message and the clock reading minus the
  card's \<open>created_at\<close> exceeds 600, \<open>send_ai_card\<close> first finishes that card (\<open>s2\<close>) and
  removes it from the dict (\<open>s3\<close>), and then handles the message exactly as it would from
  \<open>s3\<close>, where the chat has no card: the trace of the finish is a prefix of the whole trace,
  so every create, streaming or update request for the new message comes after it. The
  stale card object is not touched again and is not the card of the chat afterwards (in a
  state where every reference of the dict has been handed out, which \<open>send_ai_card\<close> and
  \<open>on_message\<close> preserve). With a valid cached token
  the requests of the eviction are the finalize stream and the finished update.
\<close>

theorem stale_card_evicted_first:
  assumes "map_of (active_cards s) (chat_id msg) = Some r"
    and "clock s (ticks s) - created_at (heap s r) > 600"
    and "s2 = card_finish r (logf Warning ''Evicting stale AI card for chat {}''
                               (s\<lparr>ticks := Suc (ticks s)\<rparr>))"
    and "s3 = s2\<lparr>active_cards := AList.delete (chat_id msg) (active_cards s)\<rparr>"
  shows "evict_stale (chat_id msg) s = (None, s3) \<and>
         map_of (active_cards s3) (chat_id msg) = None \<and>
         send_ai_card msg s = send_ai_card msg s3 \<and>
         trace s3 = trace s2 \<and>
         prefix (trace s2) (trace (send_ai_card msg s)) \<and>
         (refs_ok s \<longrightarrow>
            heap (send_ai_card msg s) r = heap s2 r \<and>
            map_of (active_cards (send_ai_card msg s)) (chat_id msg) \<noteq> Some r) \<and>
         (token_ok s tok \<longrightarrow>
            trace s2 =
              trace s
              @ (if inputing_started (heap s r) then []
                 else [PutCardData tok (card_instance_id (heap s r)) ''2'' []])
              @ [CardStreaming tok (card_instance_id (heap s r)) (uuids s (uuid_i s))
                   (if accumulated_content (heap s r) = [] then ''...''
                    else accumulated_content (heap s r)) True,
                 PutCardData tok (card_instance_id (heap s r)) ''3''
                   (if accumulated_content (heap s r) = [] then ''...''
                    else accumulated_content (heap s r))])"
proof -
  let ?s1 = "logf Warning ''Evicting stale AI card for chat {}'' (s\<lparr>ticks := Suc (ticks s)\<rparr>)"
  have ev: "evict_stale (chat_id msg) s = (None, s3)"
    using evict_stale_stale [OF assms(1,2) assms(3)] assms(4) by simp
  have none: "map_of (active_cards s3) (chat_id msg) = None"
    by (simp add: assms(4) delete_lookup)
  have ev3: "evict_stale (chat_id msg) s3 = (None, s3)"
    using none by (rule evict_stale_absent)
  have same: "send_ai_card msg s = send_ai_card msg s3"
    by (simp add: send_ai_card_def ev ev3)
  have tr: "trace s3 = trace s2" "heap s3 = heap s2" "next_ref s3 = next_ref s"
    by (simp_all add: assms(3,4) card_finish_frame logf_def)
  have pre: "prefix (trace s2) (trace (send_ai_card msg s))"
    using send_ai_card_after_eviction [OF ev] tr by simp
  have hp: "heap (send_ai_card msg s) r = heap s2 r \<and>
            map_of (active_cards (send_ai_card msg s)) (chat_id msg) \<noteq> Some r"
    if "refs_ok s"
    using send_ai_card_no_card_heap [OF ev, of r] refs_ok_lookup [OF that assms(1)] tr by simp
  have ok: "token_ok ?s1 tok" if "token_ok s tok"
    using that by (simp add: token_ok_def logf_def)
  have fin: "trace s2 =
              trace s
              @ (if inputing_started (heap s r) then []
                 else [PutCardData tok (card_instance_id (heap s r)) ''2'' []])
              @ [CardStreaming tok (card_instance_id (heap s r)) (uuids s (uuid_i s))
                   (if accumulated_content (heap s r) = [] then ''...''
                    else accumulated_content (heap s r)) True,
                 PutCardData tok (card_instance_id (heap s r)) ''3''
                   (if accumulated_content (heap s r) = [] then ''...''
                    else accumulated_content (heap s r))]"
    if "token_ok s tok"
    using card_finish_ok(1) [OF ok [OF that], of r] by (simp add: assms(3) logf_def)
  show ?thesis
    using ev none same tr(1) pre hp fin by blast
qed

theorem stale_card_evicted_first_witness:
  "map_of (active_cards world_stale) (chat_id chat1_msg) = Some 0 \<and>
   clock world_stale (ticks world_stale) - created_at (heap world_stale 0) > 600 \<and>
   refs_ok world_stale \<and> token_ok world_stale ''tok'' \<and>
   prefix [PutCardData ''tok'' ''card_0'' ''2'' [],
           CardStreaming ''tok'' ''card_0'' ''u0'' ''...'' True,
           PutCardData ''tok'' ''card_0'' ''3'' ''...'']
     (trace (send_ai_card chat1_msg world_stale)) \<and>
   map_of (active_cards (send_ai_card chat1_msg world_stale)) (chat_id chat1_msg) \<noteq> Some 0"
proof -
  have a: "map_of (active_cards world_stale) (chat_id chat1_msg) = Some 0"
    by (simp add: world_stale_def chat1_msg_def world_defs)
  have b: "clock world_stale (ticks world_stale) - created_at (heap world_stale 0) > 600"
    by (simp add: world_stale_def world_defs)
  have c: "refs_ok world_stale" by (simp add: refs_ok_def world_stale_def world_defs)
  have ok: "token_ok world_stale ''tok''"
    by (simp add: token_ok_def world_stale_def world_defs)
  have w: "trace world_stale = []" "\<not> inputing_started (heap world_stale 0)"
    "card_instance_id (heap world_stale 0) = ''card_0''"
    "accumulated_content (heap world_stale 0) = []"
    "uuids world_stale (uuid_i world_stale) = ''u0''"
    by (simp_all add: world_stale_def world_defs)
  show ?thesis
    using stale_card_evicted_first [OF a b refl refl, where tok = "''tok''"] a b c ok w
    by auto
qed

subsection \<open>Accumulating and finalizing\<close>

text \<open>
  C2. A progress message for a chat with an open card (not older than 600 s) appends its
  content and two newlines to the accumulated content of the card, and with a valid token
  streams the whole buffer with \<open>isFinalize\<close> unset. A final message appends its content
  with nothing after it, finishes the card with that buffer and removes it from the dict.
  Hence, from a state with no card for the chat, where the token stays valid, the create
  request is answered 200 and no two clock readings are more than 600 s apart: after the
  progress messages \<open>thinking...\<close> and \<open>still thinking...\<close> and the final message \<open>done\<close>
  the trace has grown by exactly create, announce, two streams and the finalize stream and
  finished update with \<open>thinking...\<close>, two newlines, \<open>still thinking...\<close>, two newlines,
  \<open>done\<close>; and the dict has no card for the chat.
\<close>

theorem progress_then_final:
  assumes ok: "token_ok s tok"
    and ttl: "\<forall>i j. clock s j - clock s i \<le> 600"
    and new: "map_of (active_cards s) key = None"
    and cid: "cid = ''card_'' @ uuids s (uuid_i s)"
    and created: "http_reply s (length (trace s)) (create_request m1 (client_id s) tok cid) = Status 200"
    and m1: "m1 = \<lparr>chat_id = key, content = ''thinking...'', metadata = md1\<rparr>"
    and p1: "truthy (map_of md1 ''_progress'')"
    and m2: "m2 = \<lparr>chat_id = key, content = ''still thinking...'', metadata = md2\<rparr>"
    and p2: "truthy (map_of md2 ''_progress'')"
    and m3: "m3 = \<lparr>chat_id = key, content = ''done'', metadata = md3\<rparr>"
    and p3: "\<not> truthy (map_of md3 ''_progress'')"
  shows
   "(truthy (map_of (metadata pm) ''_progress'') \<and>
     map_of (active_cards u) (chat_id pm) = Some r \<and>
     clock u (ticks u) - created_at (heap u r) \<le> 600 \<longrightarrow>
       accumulated_content (heap (send_ai_card pm u) r) =
         accumulated_content (heap u r) @ content pm @ [CHR 0x0A, CHR 0x0A] \<and>
       (token_ok u t \<longrightarrow>
          trace (send_ai_card pm u) =
            trace u
            @ (if inputing_started (heap u r) then []
               else [PutCardData t (card_instance_id (heap u r)) ''2'' []])
            @ [CardStreaming t (card_instance_id (heap u r)) (uuids u (uuid_i u))
                 (accumulated_content (heap u r) @ content pm @ [CHR 0x0A, CHR 0x0A]) False])) \<and>
    (\<not> truthy (map_of (metadata fm) ''_progress'') \<and>
     map_of (active_cards v) (chat_id fm) = Some q \<and>
     clock v (ticks v) - created_at (heap v q) \<le> 600 \<longrightarrow>
       accumulated_content (heap (send_ai_card fm v) q) =
         accumulated_content (heap v q) @ content fm \<and>
       map_of (active_cards (send_ai_card fm v)) (chat_id fm) = None \<and>
       (token_ok v t \<longrightarrow>
          trace (send_ai_card fm v) =
            trace v
            @ (if inputing_started (heap v q) then []
               else [PutCardData t (card_instance_id (heap v q)) ''2'' []])
            @ [CardStreaming t (card_instance_id (heap v q)) (uuids v (uuid_i v))
                 (if accumulated_content (heap v q) @ content fm = [] then ''...''
                  else accumulated_content (heap v q) @ content fm) True,
               PutCardData t (card_instance_id (heap v q)) ''3''
                 (if accumulated_content (heap v q) @ content fm = [] then ''...''
                  else accumulated_content (heap v q) @ content fm)])) \<and>
    trace (send_ai_card m3 (send_ai_card m2 (send_ai_card m1 s))) =
      trace s
      @ [create_request m1 (client_id s) tok cid,
         PutCardData tok cid ''2'' [],
         CardStreaming tok cid (uuids s (uuid_i s + 1))
           (''thinking...'' @ [CHR 0x0A, CHR 0x0A]) False,
         CardStreaming tok cid (uuids s (uuid_i s + 2))
           (''thinking...'' @ [CHR 0x0A, CHR 0x0A] @ ''still thinking...'' @ [CHR 0x0A, CHR 0x0A])
           False,
         CardStreaming tok cid (uuids s (uuid_i s + 3))
           (''thinking...'' @ [CHR 0x0A, CHR 0x0A] @ ''still thinking...'' @ [CHR 0x0A, CHR 0x0A]
            @ ''done'') True,
         PutCardData tok cid ''3''
           (''thinking...'' @ [CHR 0x0A, CHR 0x0A] @ ''still thinking...'' @ [CHR 0x0A, CHR 0x0A]
            @ ''done'')] \<and>
    map_of (active_cards (send_ai_card m3 (send_ai_card m2 (send_ai_card m1 s)))) key = None"
proof -
  let ?r = "next_ref s"
  let ?s1 = "send_ai_card m1 s"
  let ?s2 = "send_ai_card m2 ?s1"
  let ?s3 = "send_ai_card m3 ?s2"
  have f1: "truthy (map_of (metadata m1) ''_progress'')" "chat_id m1 = key"
    "content m1 = ''thinking...''" using m1 p1 by simp_all
  have f2: "truthy (map_of (metadata m2) ''_progress'')" "chat_id m2 = key"
    "content m2 = ''still thinking...''" using m2 p2 by simp_all
  have f3: "\<not> truthy (map_of (metadata m3) ''_progress'')" "chat_id m3 = key"
    "content m3 = ''done''" using m3 p3 by simp_all
  have new1: "map_of (active_cards s) (chat_id m1) = None" using new f1 by simp
  have cr1: "http_reply s (length (trace s))
       (create_request m1 (client_id s) tok (''card_'' @ uuids s (uuid_i s))) = Status 200"
    using created cid by simp
  note A = send_progress_new_ok [OF f1(1) new1 ok cr1]
  have c1: "map_of (active_cards ?s1) (chat_id m2) = Some ?r" using A(2) f1 f2 by simp
  have age1: "clock ?s1 (ticks ?s1) - created_at (heap ?s1 ?r) \<le> 600"
    using ttl by (simp add: A(1) A(3))
  note B = send_progress_open_ok [OF f2(1) c1 age1]
  have ok2: "token_ok ?s2 tok" using A(5) by (rule B(5))
  have c2: "map_of (active_cards ?s2) (chat_id m3) = Some ?r" using c1 f2 f3 by (simp add: B(2))
  have h2: "heap ?s2 ?r = \<lparr>card_instance_id = cid,
       accumulated_content = ''thinking...'' @ [CHR 0x0A, CHR 0x0A] @ ''still thinking...'' @ [CHR 0x0A, CHR 0x0A],
       inputing_started = True, created_at = clock s (Suc (ticks s))\<rparr>"
    by (simp add: B(1) A(1) f1 f2 cid)
  have age2: "clock ?s2 (ticks ?s2) - created_at (heap ?s2 ?r) \<le> 600"
    using ttl by (simp add: h2 B(3) A(3))
  note C = send_final_open_ok [OF f3(1) c2 age2]
  have t1: "trace ?s1 = trace s @ [create_request m1 (client_id s) tok cid,
         PutCardData tok cid ''2'' [],
         CardStreaming tok cid (uuids s (Suc (uuid_i s))) (''thinking...'' @ [CHR 0x0A, CHR 0x0A]) False]"
    using A(7) by (simp add: f1 cid)
  have t2: "trace ?s2 = trace ?s1 @ [CardStreaming tok cid (uuids s (Suc (Suc (uuid_i s))))
           (''thinking...'' @ [CHR 0x0A, CHR 0x0A] @ ''still thinking...'' @ [CHR 0x0A, CHR 0x0A]) False]"
    using B(7) [OF A(5)] by (simp add: A(1) A(4) A(6) f1 f2 cid)
  have u2: "uuids ?s2 (uuid_i ?s2) = uuids s (Suc (Suc (Suc (uuid_i s))))"
    using B(6) [OF A(5)] by (simp add: B(4) A(4) A(6))
  have t3: "trace ?s3 = trace ?s2 @ [CardStreaming tok cid (uuids s (Suc (Suc (Suc (uuid_i s)))))
           (''thinking...'' @ [CHR 0x0A, CHR 0x0A] @ ''still thinking...'' @ [CHR 0x0A, CHR 0x0A] @ ''done'') True,
         PutCardData tok cid ''3''
           (''thinking...'' @ [CHR 0x0A, CHR 0x0A] @ ''still thinking...'' @ [CHR 0x0A, CHR 0x0A] @ ''done'')]"
    using C(3) [OF ok2] by (simp add: h2 u2 f3)
  have scen: "trace ?s3 =
      trace s
      @ [create_request m1 (client_id s) tok cid,
         PutCardData tok cid ''2'' [],
         CardStreaming tok cid (uuids s (uuid_i s + 1))
           (''thinking...'' @ [CHR 0x0A, CHR 0x0A]) False,
         CardStreaming tok cid (uuids s (uuid_i s + 2))
           (''thinking...'' @ [CHR 0x0A, CHR 0x0A] @ ''still thinking...'' @ [CHR 0x0A, CHR 0x0A])
           False,
         CardStreaming tok cid (uuids s (uuid_i s + 3))
           (''thinking...'' @ [CHR 0x0A, CHR 0x0A] @ ''still thinking...'' @ [CHR 0x0A, CHR 0x0A]
            @ ''done'') True,
         PutCardData tok cid ''3''
           (''thinking...'' @ [CHR 0x0A, CHR 0x0A] @ ''still thinking...'' @ [CHR 0x0A, CHR 0x0A]
            @ ''done'')]"
    by (simp add: t3 t2 t1 numeral_3_eq_3 numeral_2_eq_2)
  have reg: "map_of (active_cards ?s3) key = None" using C(2) f3 by simp
  have gp: "accumulated_content (heap (send_ai_card pm u) r) =
         accumulated_content (heap u r) @ content pm @ [CHR 0x0A, CHR 0x0A] \<and>
       (token_ok u t \<longrightarrow>
          trace (send_ai_card pm u) =
            trace u
            @ (if inputing_started (heap u r) then []
               else [PutCardData t (card_instance_id (heap u r)) ''2'' []])
            @ [CardStreaming t (card_instance_id (heap u r)) (uuids u (uuid_i u))
                 (accumulated_content (heap u r) @ content pm @ [CHR 0x0A, CHR 0x0A]) False])"
    if "truthy (map_of (metadata pm) ''_progress'')"
      "map_of (active_cards u) (chat_id pm) = Some r"
      "clock u (ticks u) - created_at (heap u r) \<le> 600"
    using send_progress_open_ok(1) [OF that] send_progress_open_ok(7) [OF that, of t]
    by simp
  have gf: "accumulated_content (heap (send_ai_card fm v) q) =
         accumulated_content (heap v q) @ content fm \<and>
       map_of (active_cards (send_ai_card fm v)) (chat_id fm) = None \<and>
       (token_ok v t \<longrightarrow>
          trace (send_ai_card fm v) =
            trace v
            @ (if inputing_started (heap v q) then []
               else [PutCardData t (card_instance_id (heap v q)) ''2'' []])
            @ [CardStreaming t (card_instance_id (heap v q)) (uuids v (uuid_i v))
                 (if accumulated_content (heap v q) @ content fm = [] then ''...''
                  else accumulated_content (heap v q) @ content fm) True,
               PutCardData t (card_instance_id (heap v q)) ''3''
                 (if accumulated_content (heap v q) @ content fm = [] then ''...''
                  else accumulated_content (heap v q) @ content fm)])"
    if "\<not> truthy (map_of (metadata fm) ''_progress'')"
      "map_of (active_cards v) (chat_id fm) = Some q"
      "clock v (ticks v) - created_at (heap v q) \<le> 600"
    using send_final_open_ok(1) [OF that] send_final_open_ok(2) [OF that]
      send_final_open_ok(3) [OF that, of t]
    by simp
  show ?thesis
    using gp gf scen reg by blast
qed


theorem progress_then_final_witness:
  "token_ok world_empty ''tok'' \<and> (\<forall>i j. clock world_empty j - clock world_empty i \<le> 600) \<and>
   map_of (active_cards world_empty) ''chat1'' = None \<and>
   truthy (map_of (metadata chat1_msg) ''_progress'') \<and>
   truthy (map_of (metadata still_msg) ''_progress'') \<and>
   \<not> truthy (map_of (metadata final_msg) ''_progress'') \<and>
   map_of (active_cards world_started) (chat_id chat1_msg) = Some 0 \<and>
   clock world_started (ticks world_started) - created_at (heap world_started 0) \<le> 600 \<and>
   token_ok world_started ''tok'' \<and>
   trace (send_ai_card final_msg (send_ai_card still_msg (send_ai_card chat1_msg world_empty))) =
     [CreateAndDeliver ''tok'' ''card_u0'' ''dtv1.card//IM_ROBOT.staff1''
        (ImRobotOpenDeliverModel ''IM_ROBOT''),
      PutCardData ''tok'' ''card_u0'' ''2'' [],
      CardStreaming ''tok'' ''card_u0'' ''u1'' (''thinking...'' @ [CHR 0x0A, CHR 0x0A]) False,
      CardStreaming ''tok'' ''card_u0'' ''u2''
        (''thinking...'' @ [CHR 0x0A, CHR 0x0A] @ ''still thinking...'' @ [CHR 0x0A, CHR 0x0A]) False,
      CardStreaming ''tok'' ''card_u0'' ''u2''
        (''thinking...'' @ [CHR 0x0A, CHR 0x0A] @ ''still thinking...'' @ [CHR 0x0A, CHR 0x0A]
         @ ''done'') True,
      PutCardData ''tok'' ''card_u0'' ''3''
        (''thinking...'' @ [CHR 0x0A, CHR 0x0A] @ ''still thinking...'' @ [CHR 0x0A, CHR 0x0A]
         @ ''done'')] \<and>
   map_of (active_cards
     (send_ai_card final_msg (send_ai_card still_msg (send_ai_card chat1_msg world_empty))))
     ''chat1'' = None \<and>
   accumulated_content (heap (send_ai_card chat1_msg world_started) 0) =
     ''hi'' @ ''thinking...'' @ [CHR 0x0A, CHR 0x0A] \<and>
   accumulated_content (heap (send_ai_card final_msg world_started) 0) = ''hi'' @ ''done''"
proof -
  have ok: "token_ok world_empty ''tok''"
    by (simp add: token_ok_def world_empty_def world_defs)
  have ttl: "\<forall>i j. clock world_empty j - clock world_empty i \<le> 600"
    by (simp add: world_empty_def world_defs)
  have new: "map_of (active_cards world_empty) ''chat1'' = None"
    by (simp add: world_empty_def)
  have cr: "http_reply world_empty (length (trace world_empty))
      (create_request chat1_msg (client_id world_empty) ''tok''
        (''card_'' @ uuids world_empty (uuid_i world_empty))) = Status 200"
    by (simp add: world_empty_def world_defs)
  have m1: "chat1_msg = \<lparr>chat_id = ''chat1'', content = ''thinking...'', metadata = metadata chat1_msg\<rparr>"
    and m2: "still_msg = \<lparr>chat_id = ''chat1'', content = ''still thinking...'', metadata = metadata still_msg\<rparr>"
    and m3: "final_msg = \<lparr>chat_id = ''chat1'', content = ''done'', metadata = metadata final_msg\<rparr>"
    by (simp_all add: chat1_msg_def still_msg_def final_msg_def)
  have p1: "truthy (map_of (metadata chat1_msg) ''_progress'')"
    and p2: "truthy (map_of (metadata still_msg) ''_progress'')"
    and p3: "\<not> truthy (map_of (metadata final_msg) ''_progress'')"
    by (simp_all add: chat1_msg_def still_msg_def final_msg_def)
  have g: "map_of (active_cards world_started) (chat_id chat1_msg) = Some 0"
    "map_of (active_cards world_started) (chat_id final_msg) = Some 0"
    "clock world_started (ticks world_started) - created_at (heap world_started 0) \<le> 600"
    "token_ok world_started ''tok''"
    by (simp_all add: token_ok_def chat1_msg_def final_msg_def world_defs)
  have w: "trace world_empty = []" "client_id world_empty = ''app''"
    "uuids world_empty = (\<lambda>n. if n = 0 then ''u0'' else if n = 1 then ''u1'' else ''u2'')"
    "uuid_i world_empty = 0"
    "accumulated_content (heap world_started 0) = ''hi''"
    "content chat1_msg = ''thinking...''" "content final_msg = ''done''"
    by (simp_all add: world_empty_def chat1_msg_def final_msg_def world_defs)
  have rq: "create_request chat1_msg ''app'' ''tok'' ''card_u0'' =
      CreateAndDeliver ''tok'' ''card_u0'' ''dtv1.card//IM_ROBOT.staff1''
        (ImRobotOpenDeliverModel ''IM_ROBOT'')"
    by (simp add: create_request_def build_open_space_id_def get_default_def chat1_msg_def)
  note th = progress_then_final [OF ok ttl new refl cr m1 p1 m2 p2 m3 p3,
      where pm = chat1_msg and u = world_started and r = 0 and t = "''tok''"
        and fm = final_msg and v = world_started and q = 0]
  show ?thesis
    using th ok ttl new p1 p2 p3 g w rq by auto
qed

subsection \<open>The token cache\<close>

text \<open>
  What \<open>get_access_token\<close> does, case by case. It returns a token without a request exactly
  on a cache hit, and then it is the cached token. Without a client, or when the exchange
  raises before the body is decoded, it returns nothing and the cached token and expiry
  stay. When the body is decoded and \<open>expireIn\<close> converts to an integer that fits a float
  (or is absent: 7200), the new token is stored with expiry clock + \<open>expireIn\<close> - 60 and
  returned.
\<close>

lemma get_access_token_hit:
  "cache_hit s \<Longrightarrow> get_access_token s = (access_token s, s\<lparr>ticks := Suc (ticks s)\<rparr>)"
  by (auto simp add: cache_hit_def get_access_token_def time_time_def split: option.splits)

lemma get_access_token_miss:
  "\<not> cache_hit s \<Longrightarrow>
   get_access_token s =
     refresh_access_token
       (case access_token s of
          None \<Rightarrow> s
        | Some t \<Rightarrow> if t = [] then s else s\<lparr>ticks := Suc (ticks s)\<rparr>)"
  by (auto simp add: cache_hit_def get_access_token_def time_time_def split: option.splits)

lemma refresh_no_client:
  "\<not> http s \<Longrightarrow> fst (refresh_access_token s) = None \<and>
     access_token (snd (refresh_access_token s)) = access_token s \<and>
     token_expiry (snd (refresh_access_token s)) = token_expiry s \<and>
     trace (snd (refresh_access_token s)) = trace s"
  by (simp add: refresh_access_token_def logf_def)

lemma refresh_raised:
  "http s \<Longrightarrow> token_reply s (length (trace s)) = TokenRaised \<Longrightarrow>
   fst (refresh_access_token s) = None \<and>
     access_token (snd (refresh_access_token s)) = access_token s \<and>
     token_expiry (snd (refresh_access_token s)) = token_expiry s \<and>
     trace (snd (refresh_access_token s)) = trace s @ [TokenRequest (client_id s) (client_secret s)]"
  by (simp add: refresh_access_token_def effect_defs)

lemma refresh_stored:
  "http s \<Longrightarrow> token_reply s (length (trace s)) = TokenJson tok (ExpireInt n) \<Longrightarrow>
   int_fits_float n \<Longrightarrow>
   fst (refresh_access_token s) = tok \<and>
     access_token (snd (refresh_access_token s)) = tok \<and>
     token_expiry (snd (refresh_access_token s)) = clock s (ticks s) + real_of_int n - 60 \<and>
     trace (snd (refresh_access_token s)) = trace s @ [TokenRequest (client_id s) (client_secret s)]"
  by (simp add: refresh_access_token_def effect_defs)

lemma refresh_stored_default:
  "http s \<Longrightarrow> token_reply s (length (trace s)) = TokenJson tok ExpireAbsent \<Longrightarrow>
   fst (refresh_access_token s) = tok \<and>
     access_token (snd (refresh_access_token s)) = tok \<and>
     token_expiry (snd (refresh_access_token s)) = clock s (ticks s) + 7200 - 60 \<and>
     trace (snd (refresh_access_token s)) = trace s @ [TokenRequest (client_id s) (client_secret s)]"
  by (simp add: refresh_access_token_def effect_defs)

lemma refresh_bad_ttl:
  "http s \<Longrightarrow> token_reply s (length (trace s)) = TokenJson tok ExpireBad \<Longrightarrow>
   fst (refresh_access_token s) = None \<and>
     access_token (snd (refresh_access_token s)) = tok \<and>
     token_expiry (snd (refresh_access_token s)) = token_expiry s"
  by (simp add: refresh_access_token_def effect_defs)

lemma refresh_overflow:
  "http s \<Longrightarrow> token_reply s (length (trace s)) = TokenJson tok (ExpireInt n) \<Longrightarrow>
   \<not> int_fits_float n \<Longrightarrow>
   fst (refresh_access_token s) = None \<and>
     access_token (snd (refresh_access_token s)) = tok \<and>
     token_expiry (snd (refresh_access_token s)) = token_expiry s"
  by (simp add: refresh_access_token_def effect_defs)

lemma refresh_makes_request:
  "http s \<Longrightarrow> trace (snd (refresh_access_token s)) = trace s @ [TokenRequest (client_id s) (client_secret s)]"
  by (simp add: refresh_access_token_def effect_defs Let_def
        split: token_outcome.splits expire_in.splits)

lemma cached_without_request_iff:
  "fst (get_access_token s) \<noteq> None \<and> trace (snd (get_access_token s)) = trace s \<longleftrightarrow> cache_hit s"
proof (cases "cache_hit s")
  case True
  then have "\<exists>t. access_token s = Some t" by (auto simp add: cache_hit_def split: option.splits)
  with True show ?thesis by (auto simp add: get_access_token_hit)
next
  case False
  let ?s0 = "case access_token s of None \<Rightarrow> s
             | Some t \<Rightarrow> if t = [] then s else s\<lparr>ticks := Suc (ticks s)\<rparr>"
  have g: "get_access_token s = refresh_access_token ?s0" using False by (rule get_access_token_miss)
  have f: "http ?s0 = http s" "trace ?s0 = trace s" by (simp_all split: option.splits)
  show ?thesis
  proof (cases "http s")
    case True
    then show ?thesis using False f refresh_makes_request [of ?s0] by (simp add: g)
  next
    case nh: False
    then show ?thesis using False f refresh_no_client [of ?s0] by (simp add: g)
  qed
qed

text \<open>
  C7 fails on the code in one case. The cached token \<open>old\<close> has expired; the token request
  is answered with a body holding the token \<open>new\<close> and an \<open>expireIn\<close> on which \<open>int()\<close>
  raises. Line 249 has stored \<open>new\<close> before line 251 raises: the refresh fails (nothing is
  returned, the failure is logged), yet the cached token is now \<open>new\<close>, with the expiry of
  \<open>old\<close>.
\<close>

theorem refresh_bad_ttl_overwrites_cache:
  "access_token world_bad_ttl = Some ''old'' \<and> token_expiry world_bad_ttl = 500 \<and>
   \<not> cache_hit world_bad_ttl \<and>
   fst (get_access_token world_bad_ttl) = None \<and>
   access_token (snd (get_access_token world_bad_ttl)) = Some ''new'' \<and>
   token_expiry (snd (get_access_token world_bad_ttl)) = 500 \<and>
   trace (snd (get_access_token world_bad_ttl)) = [TokenRequest ''app'' ''secret''] \<and>
   logs (snd (get_access_token world_bad_ttl)) =
     [(Error, ''Failed to get DingTalk access token: {}'')]"
  by (simp add: world_bad_ttl_def cache_hit_def world_defs op_defs Let_def)

end
